theory Spec2Isabelle
  imports Main "HOL-Library.AList"
begin

section \<open>JavaScript values, errors and strings\<close>

text \<open>
  The development embeds \<^verbatim>\<open>language-server/src/jsonc-instance.js\<close>: the class
  \<^verbatim>\<open>JsoncInstance\<close> and the generator \<^verbatim>\<open>pointerSegments\<close>.

  A JavaScript string is a \<^typ>\<open>string\<close>. Every \<^verbatim>\<open>throw\<close> of the source and every
  exception of the runtime (reading a property of \<^verbatim>\<open>undefined\<close>, a rejected
  \<^verbatim>\<open>JSON.parse\<close>, a rejected \<^verbatim>\<open>decodeURI\<close>) is a value of \<open>error\<close>;
  a function that can throw returns \<open>error + 'a\<close>.
\<close>

datatype error =
    ResolutionError string
  | InvalidPointer string
  | TypeError
  | SyntaxError
  | URIError

text \<open>A parsed JSON value, as \<^verbatim>\<open>JSON.parse\<close> returns it. Numbers are the integers.\<close>

datatype json =
    JNull
  | JBool bool
  | JNumber int
  | JString string
  | JArray "json list"
  | JObject "(string \<times> json) list"

text \<open>
  \<^verbatim>\<open>s.slice(start, end)\<close>: a negative index counts from the end of the string, and both
  indices are clamped to the string.
\<close>

definition js_index :: "nat \<Rightarrow> int \<Rightarrow> nat" where
  "js_index n k = (if k < 0 then nat (max (int n + k) 0) else min (nat k) n)"

definition js_slice :: "string \<Rightarrow> int \<Rightarrow> int \<Rightarrow> string" where
  "js_slice s start end' =
     (let from = js_index (length s) start; to = js_index (length s) end'
      in take (to - from) (drop from s))"

text \<open>
  \<^verbatim>\<open>s.indexOf(c, from)\<close> for a one-character search string: the first index at or after
  \<open>from\<close> that holds \<open>c\<close>, and \<open>-1\<close> when there is none.
\<close>

definition indexOf :: "string \<Rightarrow> char \<Rightarrow> nat \<Rightarrow> int" where
  "indexOf s c from =
     (let rest = drop from s; k = length (takeWhile (\<lambda>x. x \<noteq> c) rest)
      in if k < length rest then int (from + k) else - 1)"

text \<open>
  \<^verbatim>\<open>s.replace(/ab/g, "c")\<close> for a two-character pattern \<open>ab\<close>: matches are found
  from left to right and do not overlap.
\<close>

fun replace_pair :: "char \<Rightarrow> char \<Rightarrow> char \<Rightarrow> string \<Rightarrow> string" where
  "replace_pair a b c (x # y # s) =
     (if x = a \<and> y = b then c # replace_pair a b c s else x # replace_pair a b c (y # s))"
| "replace_pair a b c s = s"

text \<open>\<^verbatim>\<open>s.replace(/a/g, "bc")\<close> for a one-character pattern.\<close>

definition replace_char :: "char \<Rightarrow> string \<Rightarrow> string \<Rightarrow> string" where
  "replace_char a r s = concat (map (\<lambda>x. if x = a then r else [x]) s)"

section \<open>The pointer codec\<close>

text \<open>
  \<^verbatim>\<open>JsonPointer.append(segment, pointer)\<close> of the package \<^verbatim>\<open>@hyperjump/json-pointer\<close>
  returns \<^verbatim>\<open>pointer + "/" + escape(segment)\<close>, where \<^verbatim>\<open>escape\<close> replaces every
  \<^verbatim>\<open>~\<close> by \<^verbatim>\<open>~0\<close> and then every \<^verbatim>\<open>/\<close> by \<^verbatim>\<open>~1\<close>. It reads its first
  two arguments only.
\<close>

definition escape :: "string \<Rightarrow> string" where
  "escape segment = replace_char CHR ''/'' ''~1'' (replace_char CHR ''~'' ''~0'' segment)"

definition JsonPointer_append :: "string \<Rightarrow> string \<Rightarrow> string" where
  "JsonPointer_append segment pointer = pointer @ ''/'' @ escape segment"

text \<open>
  The last line of the loop of \<^verbatim>\<open>pointerSegments\<close>:
  \<^verbatim>\<open>segment.toString().replace(/~1/g, "/").replace(/~0/g, "~")\<close>.
\<close>

definition unescape :: "string \<Rightarrow> string" where
  "unescape segment =
     replace_pair CHR ''~'' CHR ''0'' CHR ''~'' (replace_pair CHR ''~'' CHR ''1'' CHR ''/'' segment)"

text \<open>
  The loop of \<^verbatim>\<open>pointerSegments\<close>, with its two variables. The generator is always
  consumed whole (\<^verbatim>\<open>[...pointerSegments(pointer)]\<close>), so the model returns the list
  of the segments it yields.
\<close>

function segments_loop :: "string \<Rightarrow> nat \<Rightarrow> nat \<Rightarrow> string list" where
  "segments_loop pointer segmentStart segmentEnd =
     (if segmentEnd < length pointer then
        (let position = indexOf pointer CHR ''/'' segmentStart;
             segmentEnd' = (if position = - 1 then length pointer else nat position);
             segment = js_slice pointer (int segmentStart) (int segmentEnd')
         in unescape segment # segments_loop pointer (segmentEnd' + 1) segmentEnd')
      else [])"
  by pat_completeness auto

lemma indexOf_range:
  "indexOf s c from = - 1 \<or> (int from \<le> indexOf s c from \<and> indexOf s c from < int (length s))"
  by (auto simp: indexOf_def Let_def)

termination segments_loop
proof (relation "measures [\<lambda>(p, s, e). if s = e + 1 then 0 else 1, \<lambda>(p, s, e). length p - e]",
    goal_cases)
  case 1
  show ?case by simp
next
  case (2 pointer segmentStart segmentEnd position segmentEnd' segment)
  have r: "position = - 1 \<or> (int segmentStart \<le> position \<and> position < int (length pointer))"
    using 2(2) indexOf_range [of pointer "CHR ''/''" segmentStart] by simp
  show ?case
  proof (cases "segmentStart = segmentEnd + 1")
    case True
    with 2(1,3) r show ?thesis by auto
  next
    case False
    then show ?thesis by simp
  qed
qed

declare segments_loop.simps [simp del]

definition pointerSegments :: "string \<Rightarrow> error + string list" where
  "pointerSegments pointer =
     (if length pointer > 0 \<and> hd pointer \<noteq> CHR ''/'' then Inl (InvalidPointer pointer)
      else Inr (segments_loop pointer 1 0))"

text \<open>
  The pointer of a path, as \<^verbatim>\<open>getInstanceAtPosition\<close> builds it:
  \<^verbatim>\<open>path.reduce((pointer, segment) => JsonPointer.append(segment, pointer), "")\<close>.
\<close>

definition encode_path :: "string list \<Rightarrow> string" where
  "encode_path path = foldl (\<lambda>pointer segment. JsonPointer_append segment pointer) [] path"

text \<open>The encoding of a path, written without the fold (used in the proofs only).\<close>

definition encoded :: "string list \<Rightarrow> string" where
  "encoded path = concat (map (\<lambda>s. CHR ''/'' # escape s) path)"

section \<open>The syntax tree and the instances\<close>

text \<open>
  The tree is the one \<^verbatim>\<open>parseTree\<close> of the package \<^verbatim>\<open>jsonc-parser\<close> builds. Its nodes
  are JavaScript objects that refer to each other (\<^verbatim>\<open>children\<close>, \<^verbatim>\<open>parent\<close>) and
  \<^verbatim>\<open>asEmbedded\<close> writes into one of them, so the nodes live in a store and a reference to
  a node is its address. A node has the fields \<^verbatim>\<open>type\<close>, \<^verbatim>\<open>offset\<close>, \<^verbatim>\<open>length\<close>
  and, when the parser sets them, \<^verbatim>\<open>value\<close> (the decoded value of a literal or of a
  property name: a string, a number, a boolean or \<^verbatim>\<open>null\<close>), \<^verbatim>\<open>children\<close> and
  \<^verbatim>\<open>parent\<close>. A field that is not set reads \<^verbatim>\<open>undefined\<close>: \<open>None\<close>. An entry of a
  \<^verbatim>\<open>children\<close> array is a reference or, where an assignment past the end of the array
  left a hole, \<^verbatim>\<open>undefined\<close>.
\<close>

type_synonym addr = nat

datatype node_type = TObject | TArray | TProperty | TString | TNumber | TBoolean | TNull

fun type_name :: "node_type \<Rightarrow> string" where
  "type_name TObject = ''object''"
| "type_name TArray = ''array''"
| "type_name TProperty = ''property''"
| "type_name TString = ''string''"
| "type_name TNumber = ''number''"
| "type_name TBoolean = ''boolean''"
| "type_name TNull = ''null''"

datatype scalar = SString string | SNumber int | SBool bool | SNull

fun json_of_scalar :: "scalar \<Rightarrow> json" where
  "json_of_scalar (SString s) = JString s"
| "json_of_scalar (SNumber n) = JNumber n"
| "json_of_scalar (SBool b) = JBool b"
| "json_of_scalar SNull = JNull"

record jnode =
  ntype :: node_type
  noffset :: int
  nlength :: int
  nvalue :: "scalar option"
  nchildren :: "addr option list option"
  nparent :: "addr option"

text \<open>The store: the node at every address, and the next address a new node takes.\<close>

record heap =
  node_at :: "addr \<Rightarrow> jnode"
  next_addr :: addr

definition alloc :: "heap \<Rightarrow> jnode \<Rightarrow> addr \<times> heap" where
  "alloc h n =
     (next_addr h, h\<lparr>node_at := (node_at h)(next_addr h := n), next_addr := Suc (next_addr h)\<rparr>)"

definition set_children :: "heap \<Rightarrow> addr \<Rightarrow> addr option list \<Rightarrow> heap" where
  "set_children h a cs = h\<lparr>node_at := (node_at h)(a := (node_at h a)\<lparr>nchildren := Some cs\<rparr>)\<rparr>"

text \<open>\<^verbatim>\<open>xs[i]\<close> on an array: \<^verbatim>\<open>undefined\<close> outside the array and at a hole.\<close>

definition child :: "addr option list \<Rightarrow> nat \<Rightarrow> addr option" where
  "child cs i = (if i < length cs then cs ! i else None)"

text \<open>
  \<^verbatim>\<open>xs[i] = v\<close> on an array: inside the array it replaces the entry; at or past the end
  the array grows, with holes up to \<open>i\<close>; a negative \<open>i\<close> (the \<open>-1\<close> of a failed
  \<^verbatim>\<open>findIndex\<close>) sets a property that is no entry of the array.
\<close>

definition js_array_set :: "addr option list \<Rightarrow> int \<Rightarrow> addr \<Rightarrow> addr option list" where
  "js_array_set xs i v =
     (if i < 0 then xs
      else if nat i < length xs then xs[nat i := Some v]
      else xs @ replicate (nat i - length xs) None @ [Some v])"

text \<open>\<^verbatim>\<open>xs.findIndex((node) => node === x)\<close>.\<close>

definition findIndex :: "addr option list \<Rightarrow> addr \<Rightarrow> int" where
  "findIndex xs x =
     (let k = length (takeWhile (\<lambda>y. y \<noteq> Some x) xs)
      in if k < length xs then int k else - 1)"

text \<open>
  The annotations object maps a pointer to an object that maps a keyword to the array of
  its values. Both are association lists in insertion order;
  \<^verbatim>\<open>{...m, [k]: v}\<close> is \<^const>\<open>AList.update\<close> and \<^verbatim>\<open>m[k]\<close> is \<^const>\<open>map_of\<close>. (Only
  own properties are modelled: no pointer or keyword identifier of the callers names a
  member of \<^verbatim>\<open>Object.prototype\<close>.)
\<close>

type_synonym 'v annotations = "(string \<times> (string \<times> 'v list) list) list"

text \<open>
  The fields of \<^verbatim>\<open>JsoncInstance\<close>. \<open>textDocument\<close> is the text of the document
  (\<^verbatim>\<open>textDocument.getText()\<close>). \<open>root\<close> and \<open>node\<close> are references or
  \<^verbatim>\<open>undefined\<close>, and so is \<open>annotations\<close>: the constructor stores what it is given.
\<close>

record 'v JsoncInstance =
  textDocument :: string
  root :: "addr option"
  node :: "addr option"
  pointer :: string
  annotations :: "'v annotations option"

text \<open>A generator that has run: the values it yields, ended by its return or by a throw.\<close>

datatype 'a gen = Done | Yield 'a "'a gen" | Throw error

text \<open>\<^verbatim>\<open>find\<close> and \<^verbatim>\<open>some\<close> of \<^verbatim>\<open>@hyperjump/pact\<close>: they stop at the first match.\<close>

fun find_gen :: "('a \<Rightarrow> error + bool) \<Rightarrow> 'a gen \<Rightarrow> error + 'a option" where
  "find_gen fn Done = Inr None"
| "find_gen fn (Throw e) = Inl e"
| "find_gen fn (Yield item rest) =
     (case fn item of Inl e \<Rightarrow> Inl e
      | Inr b \<Rightarrow> if b then Inr (Some item) else find_gen fn rest)"

fun some_gen :: "('a \<Rightarrow> error + bool) \<Rightarrow> 'a gen \<Rightarrow> error + bool" where
  "some_gen fn Done = Inr False"
| "some_gen fn (Throw e) = Inl e"
| "some_gen fn (Yield item rest) =
     (case fn item of Inl e \<Rightarrow> Inl e
      | Inr b \<Rightarrow> if b then Inr True else some_gen fn rest)"

text \<open>The decimal digits of a number, for \<^verbatim>\<open>`${itemIndex}`\<close> and \<^verbatim>\<open>toString\<close>.\<close>

fun nat_to_string :: "nat \<Rightarrow> string" where
  "nat_to_string n =
     (if n < 10 then [char_of (48 + n)]
      else nat_to_string (n div 10) @ [char_of (48 + n mod 10)])"

definition int_to_string :: "int \<Rightarrow> string" where
  "int_to_string k = (if k < 0 then CHR ''-'' # nat_to_string (nat (- k)) else nat_to_string (nat k))"

text \<open>
  \<^verbatim>\<open>segment.toString()\<close>, the first step of \<^verbatim>\<open>escape\<close>, on the \<^verbatim>\<open>value\<close> of a
  node: \<^verbatim>\<open>undefined\<close> and \<^verbatim>\<open>null\<close> have no \<^verbatim>\<open>toString\<close>.
\<close>

fun js_toString :: "scalar option \<Rightarrow> error + string" where
  "js_toString None = Inl TypeError"
| "js_toString (Some SNull) = Inl TypeError"
| "js_toString (Some (SString s)) = Inr s"
| "js_toString (Some (SNumber n)) = Inr (int_to_string n)"
| "js_toString (Some (SBool b)) = Inr (if b then ''true'' else ''false'')"

subsection \<open>Reading a node\<close>

text \<open>
  \<^verbatim>\<open>JSON.parse\<close> is a function of the platform; \<open>value_of\<close> and what calls it take it
  as the parameter \<open>parse\<close>.
\<close>

type_synonym parser = "string \<Rightarrow> error + json"

definition value_of :: "parser \<Rightarrow> heap \<Rightarrow> 'v JsoncInstance \<Rightarrow> error + json option" where
  "value_of parse h this =
     (case node this of
        None \<Rightarrow> Inr None
      | Some a \<Rightarrow>
          (case nvalue (node_at h a) of
             None \<Rightarrow>
               (case parse (js_slice (textDocument this) (noffset (node_at h a))
                              (noffset (node_at h a) + nlength (node_at h a))) of
                  Inl e \<Rightarrow> Inl e
                | Inr v \<Rightarrow> Inr (Some v))
           | Some v \<Rightarrow> Inr (Some (json_of_scalar v))))"

definition typeOf :: "heap \<Rightarrow> 'v JsoncInstance \<Rightarrow> string" where
  "typeOf h this =
     (case node this of None \<Rightarrow> ''undefined'' | Some a \<Rightarrow> type_name (ntype (node_at h a)))"

subsection \<open>Navigation\<close>

text \<open>
  The body of the loop of \<^verbatim>\<open>entries\<close>, over the array \<^verbatim>\<open>this.node.children\<close>. Reading
  \<^verbatim>\<open>propertyNode.children[1]\<close> throws when the entry is a hole or has no
  \<^verbatim>\<open>children\<close>; \<^verbatim>\<open>JsonPointer.append\<close> throws when the name is \<^verbatim>\<open>undefined\<close> or
  \<^verbatim>\<open>null\<close>.
\<close>

fun entries_loop ::
  "heap \<Rightarrow> 'v JsoncInstance \<Rightarrow> addr option list \<Rightarrow> ('v JsoncInstance \<times> 'v JsoncInstance) gen"
where
  "entries_loop h this [] = Done"
| "entries_loop h this (propertyNode # rest) =
     (case propertyNode of
        None \<Rightarrow> Throw TypeError
      | Some p \<Rightarrow>
          (case nchildren (node_at h p) of
             None \<Rightarrow> Throw TypeError
           | Some cs \<Rightarrow>
               if child cs 1 = None then entries_loop h this rest
               else
                 (case child cs 0 of
                    None \<Rightarrow> Throw TypeError
                  | Some k \<Rightarrow>
                      (case js_toString (nvalue (node_at h k)) of
                         Inl e \<Rightarrow> Throw e
                       | Inr propertyName \<Rightarrow>
                           Yield
                             (\<lparr>textDocument = textDocument this, root = root this,
                               node = Some k,
                               pointer = JsonPointer_append propertyName (pointer this),
                               annotations = annotations this\<rparr>,
                              \<lparr>textDocument = textDocument this, root = root this,
                               node = child cs 1,
                               pointer = JsonPointer_append propertyName (pointer this),
                               annotations = annotations this\<rparr>)
                             (entries_loop h this rest)))))"

definition entries ::
  "heap \<Rightarrow> 'v JsoncInstance \<Rightarrow> ('v JsoncInstance \<times> 'v JsoncInstance) gen" where
  "entries h this =
     (if typeOf h this \<noteq> ''object'' then Done
      else
        (case node this of
           None \<Rightarrow> Throw TypeError
         | Some a \<Rightarrow>
             (case nchildren (node_at h a) of
                None \<Rightarrow> Throw TypeError
              | Some cs \<Rightarrow> entries_loop h this cs)))"

fun iter_loop :: "'v JsoncInstance \<Rightarrow> addr option list \<Rightarrow> nat \<Rightarrow> 'v JsoncInstance gen" where
  "iter_loop this [] itemIndex = Done"
| "iter_loop this (itemNode # rest) itemIndex =
     Yield
       \<lparr>textDocument = textDocument this, root = root this, node = itemNode,
        pointer = JsonPointer_append (nat_to_string itemIndex) (pointer this),
        annotations = annotations this\<rparr>
       (iter_loop this rest (itemIndex + 1))"

definition iter :: "heap \<Rightarrow> 'v JsoncInstance \<Rightarrow> 'v JsoncInstance gen" where
  "iter h this =
     (if typeOf h this \<noteq> ''array'' then Done
      else
        (case node this of
           None \<Rightarrow> Throw TypeError
         | Some a \<Rightarrow>
             (case nchildren (node_at h a) of
                None \<Rightarrow> Throw TypeError
              | Some cs \<Rightarrow> iter_loop this cs 0)))"

fun keys_loop :: "heap \<Rightarrow> 'v JsoncInstance \<Rightarrow> addr option list \<Rightarrow> 'v JsoncInstance gen" where
  "keys_loop h this [] = Done"
| "keys_loop h this (propertyNode # rest) =
     (case propertyNode of
        None \<Rightarrow> Throw TypeError
      | Some p \<Rightarrow>
          (case nchildren (node_at h p) of
             None \<Rightarrow> Throw TypeError
           | Some cs \<Rightarrow>
               (case child cs 0 of
                  None \<Rightarrow> Throw TypeError
                | Some k \<Rightarrow>
                    (case js_toString (nvalue (node_at h k)) of
                       Inl e \<Rightarrow> Throw e
                     | Inr propertyName \<Rightarrow>
                         Yield
                           \<lparr>textDocument = textDocument this, root = root this,
                            node = Some k,
                            pointer = JsonPointer_append propertyName (pointer this),
                            annotations = annotations this\<rparr>
                           (keys_loop h this rest)))))"

definition keys :: "heap \<Rightarrow> 'v JsoncInstance \<Rightarrow> 'v JsoncInstance gen" where
  "keys h this =
     (if typeOf h this \<noteq> ''object'' then Done
      else
        (case node this of
           None \<Rightarrow> Throw TypeError
         | Some a \<Rightarrow>
             (case nchildren (node_at h a) of
                None \<Rightarrow> Throw TypeError
              | Some cs \<Rightarrow> keys_loop h this cs)))"

fun values_loop :: "heap \<Rightarrow> 'v JsoncInstance \<Rightarrow> addr option list \<Rightarrow> 'v JsoncInstance gen" where
  "values_loop h this [] = Done"
| "values_loop h this (propertyNode # rest) =
     (case propertyNode of
        None \<Rightarrow> Throw TypeError
      | Some p \<Rightarrow>
          (case nchildren (node_at h p) of
             None \<Rightarrow> Throw TypeError
           | Some cs \<Rightarrow>
               (case child cs 0 of
                  None \<Rightarrow> Throw TypeError
                | Some k \<Rightarrow>
                    (case js_toString (nvalue (node_at h k)) of
                       Inl e \<Rightarrow> Throw e
                     | Inr propertyName \<Rightarrow>
                         Yield
                           \<lparr>textDocument = textDocument this, root = root this,
                            node = child cs 1,
                            pointer = JsonPointer_append propertyName (pointer this),
                            annotations = annotations this\<rparr>
                           (values_loop h this rest)))))"

definition values_of :: "heap \<Rightarrow> 'v JsoncInstance \<Rightarrow> 'v JsoncInstance gen" where
  "values_of h this =
     (if typeOf h this \<noteq> ''object'' then Done
      else
        (case node this of
           None \<Rightarrow> Throw TypeError
         | Some a \<Rightarrow>
             (case nchildren (node_at h a) of
                None \<Rightarrow> Throw TypeError
              | Some cs \<Rightarrow> values_loop h this cs)))"

text \<open>\<^verbatim>\<open>x.value() === key\<close> for a string \<open>key\<close>.\<close>

definition value_is :: "parser \<Rightarrow> heap \<Rightarrow> string \<Rightarrow> 'v JsoncInstance \<Rightarrow> error + bool" where
  "value_is parse h key x =
     (case value_of parse h x of Inl e \<Rightarrow> Inl e | Inr v \<Rightarrow> Inr (v = Some (JString key)))"

definition has :: "parser \<Rightarrow> heap \<Rightarrow> 'v JsoncInstance \<Rightarrow> string \<Rightarrow> error + bool" where
  "has parse h this key = some_gen (value_is parse h key) (keys h this)"

text \<open>
  \<^verbatim>\<open>step\<close>. In its second branch the source closes the parenthesis of
  \<^verbatim>\<open>JsonPointer.append\<close> after \<^verbatim>\<open>this.annotations\<close>: the constructor receives four
  arguments, and the field \<^verbatim>\<open>annotations\<close> of the new instance is \<^verbatim>\<open>undefined\<close>.
\<close>

definition step :: "parser \<Rightarrow> heap \<Rightarrow> 'v JsoncInstance \<Rightarrow> string \<Rightarrow> error + 'v JsoncInstance" where
  "step parse h this propertyName =
     (case find_gen (\<lambda>(key, v). value_is parse h propertyName key) (entries h this) of
        Inl e \<Rightarrow> Inl e
      | Inr (Some pair) \<Rightarrow> Inr (snd pair)
      | Inr None \<Rightarrow>
          Inr \<lparr>textDocument = textDocument this, root = root this, node = None,
               pointer = JsonPointer_append propertyName (pointer this),
               annotations = None\<rparr>)"

definition length_of :: "heap \<Rightarrow> 'v JsoncInstance \<Rightarrow> error + nat option" where
  "length_of h this =
     (if typeOf h this \<noteq> ''array'' then Inr None
      else
        (case node this of
           None \<Rightarrow> Inl TypeError
         | Some a \<Rightarrow>
             (case nchildren (node_at h a) of
                None \<Rightarrow> Inl TypeError
              | Some cs \<Rightarrow> Inr (Some (length cs)))))"

definition parent :: "heap \<Rightarrow> 'v JsoncInstance \<Rightarrow> error + 'v JsoncInstance" where
  "parent h this =
     (case node this of
        None \<Rightarrow> Inl TypeError
      | Some a \<Rightarrow>
          Inr \<lparr>textDocument = textDocument this, root = root this,
               node = nparent (node_at h a), pointer = pointer this,
               annotations = annotations this\<rparr>)"

subsection \<open>Resolving a reference\<close>

text \<open>
  \<^verbatim>\<open>findNodeAtLocation(root, path)\<close> of \<^verbatim>\<open>jsonc-parser\<close> (version 3), for a path of
  strings, which is what \<^verbatim>\<open>pointerSegments\<close> yields. A string segment selects, in an
  object, the first property with two children whose name is the segment; in any other
  node it selects nothing.
\<close>

fun find_property :: "heap \<Rightarrow> string \<Rightarrow> addr option list \<Rightarrow> error + addr option option" where
  "find_property h segment [] = Inr None"
| "find_property h segment (propertyNode # rest) =
     (case propertyNode of
        None \<Rightarrow> Inl TypeError
      | Some p \<Rightarrow>
          (case nchildren (node_at h p) of
             None \<Rightarrow> find_property h segment rest
           | Some cs \<Rightarrow>
               (case child cs 0 of
                  None \<Rightarrow> Inl TypeError
                | Some k \<Rightarrow>
                    if nvalue (node_at h k) = Some (SString segment) \<and> length cs = 2
                    then Inr (Some (child cs 1))
                    else find_property h segment rest)))"

fun location_loop :: "heap \<Rightarrow> addr option \<Rightarrow> string list \<Rightarrow> error + addr option" where
  "location_loop h n [] = Inr n"
| "location_loop h n (segment # path) =
     (case n of
        None \<Rightarrow> Inl TypeError
      | Some a \<Rightarrow>
          if ntype (node_at h a) \<noteq> TObject then Inr None
          else
            (case nchildren (node_at h a) of
               None \<Rightarrow> Inr None
             | Some cs \<Rightarrow>
                 (case find_property h segment cs of
                    Inl e \<Rightarrow> Inl e
                  | Inr None \<Rightarrow> Inr None
                  | Inr (Some n') \<Rightarrow> location_loop h n' path)))"

definition findNodeAtLocation :: "heap \<Rightarrow> addr option \<Rightarrow> string list \<Rightarrow> error + addr option" where
  "findNodeAtLocation h r path = (case r of None \<Rightarrow> Inr None | Some a \<Rightarrow> location_loop h (Some a) path)"

text \<open>
  \<^verbatim>\<open>decodeURI\<close> (ECMAScript, \<^verbatim>\<open>Decode\<close>), on strings of bytes: an escape
  \<^verbatim>\<open>%XX\<close> below 128 is replaced by its character unless that is one of
  \<^verbatim>\<open>;/?:@&=+$,#\<close>; escapes from 128 on must spell one well-formed UTF-8 sequence,
  whose bytes replace them; anything else after a \<^verbatim>\<open>%\<close> throws \<^verbatim>\<open>URIError\<close>.
\<close>

definition hex_digit :: "char \<Rightarrow> nat option" where
  "hex_digit c =
     (let n = (of_char c :: nat)
      in if 48 \<le> n \<and> n \<le> 57 then Some (n - 48)
         else if 65 \<le> n \<and> n \<le> 70 then Some (n - 55)
         else if 97 \<le> n \<and> n \<le> 102 then Some (n - 87)
         else None)"

fun percent_byte :: "string \<Rightarrow> nat option" where
  "percent_byte (p # a # b # s) =
     (if p = CHR ''%'' then
        (case hex_digit a of
           None \<Rightarrow> None
         | Some x \<Rightarrow> (case hex_digit b of None \<Rightarrow> None | Some y \<Rightarrow> Some (16 * x + y)))
      else None)"
| "percent_byte s = None"

fun continuation_octets :: "nat \<Rightarrow> string \<Rightarrow> nat list option" where
  "continuation_octets 0 s = Some []"
| "continuation_octets (Suc j) s =
     (case percent_byte s of
        None \<Rightarrow> None
      | Some b \<Rightarrow>
          (case continuation_octets j (drop 3 s) of
             None \<Rightarrow> None
           | Some bs \<Rightarrow> Some (b # bs)))"

definition leading_ones :: "nat \<Rightarrow> nat" where
  "leading_ones b =
     (if b < 128 then 0 else if b < 192 then 1 else if b < 224 then 2
      else if b < 240 then 3 else if b < 248 then 4 else 5)"

definition continuation :: "nat \<Rightarrow> bool" where
  "continuation b = (128 \<le> b \<and> b \<le> 191)"

fun valid_utf8 :: "nat list \<Rightarrow> bool" where
  "valid_utf8 [b0, b1] = (194 \<le> b0 \<and> b0 \<le> 223 \<and> continuation b1)"
| "valid_utf8 [b0, b1, b2] =
     (((b0 = 224 \<and> 160 \<le> b1 \<and> b1 \<le> 191) \<or> (225 \<le> b0 \<and> b0 \<le> 236 \<and> continuation b1)
       \<or> (b0 = 237 \<and> 128 \<le> b1 \<and> b1 \<le> 159) \<or> (238 \<le> b0 \<and> b0 \<le> 239 \<and> continuation b1))
      \<and> continuation b2)"
| "valid_utf8 [b0, b1, b2, b3] =
     (((b0 = 240 \<and> 144 \<le> b1 \<and> b1 \<le> 191) \<or> (241 \<le> b0 \<and> b0 \<le> 243 \<and> continuation b1)
       \<or> (b0 = 244 \<and> 128 \<le> b1 \<and> b1 \<le> 143))
      \<and> continuation b2 \<and> continuation b3)"
| "valid_utf8 bs = False"

definition preserveEscapeSet :: string where
  "preserveEscapeSet = '';/?:@&=+$,#''"

function decodeURI :: "string \<Rightarrow> error + string" where
  "decodeURI [] = Inr []"
| "decodeURI (c # s) =
     (if c \<noteq> CHR ''%'' then
        (case decodeURI s of Inl e \<Rightarrow> Inl e | Inr r \<Rightarrow> Inr (c # r))
      else
        (case percent_byte (c # s) of
           None \<Rightarrow> Inl URIError
         | Some b \<Rightarrow>
             if leading_ones b = 0 then
               (case decodeURI (drop 2 s) of
                  Inl e \<Rightarrow> Inl e
                | Inr r \<Rightarrow>
                    Inr ((if char_of b \<in> set preserveEscapeSet then take 3 (c # s)
                          else [char_of b]) @ r))
             else if leading_ones b = 1 \<or> leading_ones b > 4 then Inl URIError
             else
               (case continuation_octets (leading_ones b - 1) (drop 2 s) of
                  None \<Rightarrow> Inl URIError
                | Some bs \<Rightarrow>
                    if valid_utf8 (b # bs) then
                      (case decodeURI (drop (2 + 3 * (leading_ones b - 1)) s) of
                         Inl e \<Rightarrow> Inl e
                       | Inr r \<Rightarrow> Inr (map char_of (b # bs) @ r))
                    else Inl URIError)))"
  by pat_completeness auto
termination
  by (relation "measure length") auto

text \<open>
  \<^verbatim>\<open>get\<close>. \<^verbatim>\<open>uri[0] !== "#"\<close> also holds of the empty string, the default of
  the parameter. The message of the error, which \<^verbatim>\<open>toAbsoluteUri\<close> of
  \<^verbatim>\<open>./util.js\<close> helps to build, is not modelled; the error carries the reference.
\<close>

definition get :: "heap \<Rightarrow> 'v JsoncInstance \<Rightarrow> string \<Rightarrow> error + 'v JsoncInstance" where
  "get h this uri =
     (case uri of
        [] \<Rightarrow> Inl (ResolutionError uri)
      | c # fragment \<Rightarrow>
          if c \<noteq> CHR ''#'' then Inl (ResolutionError uri)
          else
            (case decodeURI fragment of
               Inl e \<Rightarrow> Inl e
             | Inr decoded \<Rightarrow>
                 (case pointerSegments decoded of
                    Inl e \<Rightarrow> Inl e
                  | Inr path \<Rightarrow>
                      (case findNodeAtLocation h (root this) path of
                         Inl e \<Rightarrow> Inl e
                       | Inr n \<Rightarrow>
                           Inr \<lparr>textDocument = textDocument this, root = root this, node = n,
                                pointer = decoded, annotations = annotations this\<rparr>))))"

subsection \<open>Embedding\<close>

text \<open>
  \<^verbatim>\<open>asEmbedded\<close> returns the new instance and writes a new node, with the fields
  \<^verbatim>\<open>type\<close>, \<^verbatim>\<open>offset\<close> and \<^verbatim>\<open>length\<close> only, into the \<^verbatim>\<open>children\<close> of the
  parent of the node: the model returns the instance and the new store.
\<close>

definition asEmbedded :: "heap \<Rightarrow> 'v JsoncInstance \<Rightarrow> error + ('v JsoncInstance \<times> heap)" where
  "asEmbedded h this =
     (case node this of
        None \<Rightarrow> Inl TypeError
      | Some a \<Rightarrow>
          (case nparent (node_at h a) of
             None \<Rightarrow> Inl TypeError
           | Some pa \<Rightarrow>
               (case nchildren (node_at h pa) of
                  None \<Rightarrow> Inl TypeError
                | Some cs \<Rightarrow>
                    (let index = (if ntype (node_at h pa) = TProperty then 1 else findIndex cs a);
                         (placeholder, h') =
                            alloc h \<lparr>ntype = TBoolean, noffset = noffset (node_at h a),
                                     nlength = 0, nvalue = None, nchildren = None,
                                     nparent = None\<rparr>
                     in Inr (\<lparr>textDocument = textDocument this, root = node this,
                              node = node this, pointer = [], annotations = Some []\<rparr>,
                             set_children h' pa (js_array_set cs index placeholder))))))"

subsection \<open>Annotations\<close>

text \<open>
  \<^verbatim>\<open>getKeywordId\<close> of \<^verbatim>\<open>@hyperjump/json-schema\<close> is the parameter
  \<open>getKeywordId\<close>: it maps a keyword and a dialect to the property name that
  \<^verbatim>\<open>annotation\<close> reads.
\<close>

type_synonym resolver = "string \<Rightarrow> string \<Rightarrow> string"

definition default_dialect :: string where
  "default_dialect = ''https://json-schema.org/draft/2020-12/schema''"

definition annotation ::
  "resolver \<Rightarrow> 'v JsoncInstance \<Rightarrow> string \<Rightarrow> string \<Rightarrow> error + 'v list" where
  "annotation getKeywordId this keyword dialectId =
     (let keywordId = getKeywordId keyword dialectId
      in case annotations this of
           None \<Rightarrow> Inl TypeError
         | Some anns \<Rightarrow>
             (case map_of anns (pointer this) of
                None \<Rightarrow> Inr []
              | Some m \<Rightarrow> (case map_of m keywordId of None \<Rightarrow> Inr [] | Some vs \<Rightarrow> Inr vs)))"

definition annotate :: "'v JsoncInstance \<Rightarrow> string \<Rightarrow> 'v \<Rightarrow> error + 'v JsoncInstance" where
  "annotate this keyword v =
     (case annotations this of
        None \<Rightarrow> Inl TypeError
      | Some anns \<Rightarrow>
          (let here = (case map_of anns (pointer this) of None \<Rightarrow> [] | Some m \<Rightarrow> m);
               old = (case map_of here keyword of None \<Rightarrow> [] | Some vs \<Rightarrow> vs)
           in Inr (this\<lparr>annotations :=
                          Some (AList.update (pointer this)
                                  (AList.update keyword (v # old) here) anns)\<rparr>)))"

fun annotatedWith_loop ::
  "heap \<Rightarrow> 'v JsoncInstance \<Rightarrow> string \<Rightarrow> 'v annotations \<Rightarrow> error + 'v JsoncInstance list" where
  "annotatedWith_loop h this keywordId [] = Inr []"
| "annotatedWith_loop h this keywordId ((instancePointer, m) # rest) =
     (if keywordId \<in> fst ` set m then
        (case get h this (CHR ''#'' # instancePointer) of
           Inl e \<Rightarrow> Inl e
         | Inr i \<Rightarrow>
             (case annotatedWith_loop h this keywordId rest of
                Inl e \<Rightarrow> Inl e
              | Inr is \<Rightarrow> Inr (i # is)))
      else annotatedWith_loop h this keywordId rest)"

definition annotatedWith ::
  "resolver \<Rightarrow> heap \<Rightarrow> 'v JsoncInstance \<Rightarrow> string \<Rightarrow> string \<Rightarrow> error + 'v JsoncInstance list"
where
  "annotatedWith getKeywordId h this keyword dialectId =
     (case annotations this of
        None \<Rightarrow> Inr []
      | Some anns \<Rightarrow> annotatedWith_loop h this (getKeywordId keyword dialectId) anns)"

subsection \<open>Construction and positions\<close>

text \<open>
  \<^verbatim>\<open>fromTextDocument\<close> takes the tree from \<^verbatim>\<open>parseTree\<close>, and
  \<^verbatim>\<open>getInstanceAtPosition\<close> asks the document for the offset and the parser for the node
  and its path. These collaborators are parameters; a segment of a path is a property
  name or an index.
\<close>

definition fromTextDocument ::
  "(string \<Rightarrow> addr option \<times> heap) \<Rightarrow> string \<Rightarrow> 'v JsoncInstance \<times> heap" where
  "fromTextDocument parseTree json =
     (let (r, h) = parseTree json
      in (\<lparr>textDocument = json, root = r, node = r, pointer = [], annotations = Some []\<rparr>, h))"

fun segment_string :: "string + nat \<Rightarrow> string" where
  "segment_string (Inl name) = name"
| "segment_string (Inr index) = nat_to_string index"

definition getInstanceAtPosition ::
  "('p \<Rightarrow> int) \<Rightarrow> (heap \<Rightarrow> addr option \<Rightarrow> int \<Rightarrow> addr option) \<Rightarrow> (heap \<Rightarrow> addr \<Rightarrow> (string + nat) list)
   \<Rightarrow> heap \<Rightarrow> 'v JsoncInstance \<Rightarrow> 'p \<Rightarrow> 'v JsoncInstance" where
  "getInstanceAtPosition offsetAt findNodeAtOffset getNodePath h this position =
     (case findNodeAtOffset h (root this) (offsetAt position) of
        Some a \<Rightarrow>
          \<lparr>textDocument = textDocument this, root = root this, node = Some a,
           pointer = foldl (\<lambda>acc segment. JsonPointer_append (segment_string segment) acc)
                       [] (getNodePath h a),
           annotations = annotations this\<rparr>
      | None \<Rightarrow>
          \<lparr>textDocument = textDocument this, root = root this, node = None, pointer = [],
           annotations = annotations this\<rparr>)"

section \<open>A model of the platform's parser on a fragment of JSON\<close>

text \<open>
  Where a theorem below evaluates \<^verbatim>\<open>value()\<close> on a concrete document it needs
  \<^verbatim>\<open>JSON.parse\<close> on a concrete text. \<open>JSON_parse\<close> follows the JSON grammar on the
  fragment with objects, arrays, strings without escape sequences, integers without
  fraction and exponent, \<^verbatim>\<open>true\<close>, \<^verbatim>\<open>false\<close>, \<^verbatim>\<open>null\<close> and white space; a
  text outside the fragment is not modelled (the function rejects it). A repeated name
  in an object keeps its last value, as \<^verbatim>\<open>JSON.parse\<close> does.
\<close>

datatype token =
    LBrace | RBrace | LBracket | RBracket | Colon | Comma
  | StringT string | NumberT int | TrueT | FalseT | NullT

definition is_space :: "char \<Rightarrow> bool" where
  "is_space c = (c = CHR '' '' \<or> c = CHR 0x09 \<or> c = CHR 0x0A \<or> c = CHR 0x0D)"

definition is_digit :: "char \<Rightarrow> bool" where
  "is_digit c = (48 \<le> (of_char c :: nat) \<and> (of_char c :: nat) \<le> 57)"

definition is_letter :: "char \<Rightarrow> bool" where
  "is_letter c = (97 \<le> (of_char c :: nat) \<and> (of_char c :: nat) \<le> 122)"

definition plain_char :: "char \<Rightarrow> bool" where
  "plain_char c = (32 \<le> (of_char c :: nat) \<and> c \<noteq> CHR 0x5C \<and> c \<noteq> CHR 0x22)"

definition digits_value :: "string \<Rightarrow> nat" where
  "digits_value ds = foldl (\<lambda>n d. 10 * n + (of_char d - 48)) 0 ds"

text \<open>An integer literal: an optional minus sign and digits with no leading zero.\<close>

definition number_token :: "string \<Rightarrow> token option" where
  "number_token s =
     (let ds = (if s \<noteq> [] \<and> hd s = CHR ''-'' then tl s else s)
      in if ds = [] \<or> (length ds > 1 \<and> hd ds = CHR ''0'') then None
         else Some (NumberT ((if s \<noteq> [] \<and> hd s = CHR ''-'' then - 1 else 1) * int (digits_value ds))))"

definition word_token :: "string \<Rightarrow> token option" where
  "word_token w =
     (if w = ''true'' then Some TrueT else if w = ''false'' then Some FalseT
      else if w = ''null'' then Some NullT else None)"

definition punctuation :: "char \<Rightarrow> token option" where
  "punctuation c =
     (if c = CHR ''{'' then Some LBrace else if c = CHR ''}'' then Some RBrace
      else if c = CHR ''['' then Some LBracket else if c = CHR '']'' then Some RBracket
      else if c = CHR '':'' then Some Colon else if c = CHR '','' then Some Comma
      else None)"

definition prepend :: "token option \<Rightarrow> token list option \<Rightarrow> token list option" where
  "prepend t ts =
     (case t of None \<Rightarrow> None | Some x \<Rightarrow> (case ts of None \<Rightarrow> None | Some xs \<Rightarrow> Some (x # xs)))"

function tokens :: "string \<Rightarrow> token list option" where
  "tokens [] = Some []"
| "tokens (c # s) =
     (if is_space c then tokens s
      else if punctuation c \<noteq> None then prepend (punctuation c) (tokens s)
      else if c = CHR 0x22 then
        (let body = takeWhile plain_char s; rest = dropWhile plain_char s
         in if rest = [] \<or> hd rest \<noteq> CHR 0x22 then None
            else prepend (Some (StringT body)) (tokens (tl rest)))
      else if c = CHR ''-'' \<or> is_digit c then
        (let ds = takeWhile is_digit s; rest = dropWhile is_digit s
         in if rest \<noteq> [] \<and> hd rest \<in> set ''.eE'' then None
            else prepend (number_token (c # ds)) (tokens rest))
      else if is_letter c then
        prepend (word_token (c # takeWhile is_letter s)) (tokens (dropWhile is_letter s))
      else None)"
  by pat_completeness auto
lemma length_tl_dropWhile: "length (tl (dropWhile P s)) \<le> length s"
  using length_dropWhile_le [of P s] by simp

termination tokens
  by (relation "measure length")
    (auto simp: less_Suc_eq_le length_dropWhile_le length_tl_dropWhile simp del: length_tl)

text \<open>
  The grammar, as a machine over the tokens with a stack of the open arrays and objects:
  \<open>expect\<close> is what may come next.
\<close>

datatype frame = InArray "json list" | InObject "(string \<times> json) list" "string option"

datatype expect = Value | ValueOrEnd | NameOrEnd | Name | ColonE | CommaOrEnd | Finished json

fun complete :: "json \<Rightarrow> frame list \<Rightarrow> (expect \<times> frame list) option" where
  "complete v [] = Some (Finished v, [])"
| "complete v (InArray xs # st) = Some (CommaOrEnd, InArray (v # xs) # st)"
| "complete v (InObject ms (Some k) # st) =
     Some (CommaOrEnd, InObject (AList.update k v ms) None # st)"
| "complete v (InObject ms None # st) = None"

fun close_array :: "frame list \<Rightarrow> (expect \<times> frame list) option" where
  "close_array (InArray xs # st) = complete (JArray (rev xs)) st"
| "close_array st = None"

fun close_object :: "frame list \<Rightarrow> (expect \<times> frame list) option" where
  "close_object (InObject ms None # st) = complete (JObject ms) st"
| "close_object st = None"

fun open_name :: "string \<Rightarrow> frame list \<Rightarrow> (expect \<times> frame list) option" where
  "open_name k (InObject ms None # st) = Some (ColonE, InObject ms (Some k) # st)"
| "open_name k st = None"

fun start_value :: "token \<Rightarrow> frame list \<Rightarrow> (expect \<times> frame list) option" where
  "start_value LBrace st = Some (NameOrEnd, InObject [] None # st)"
| "start_value LBracket st = Some (ValueOrEnd, InArray [] # st)"
| "start_value (StringT s) st = complete (JString s) st"
| "start_value (NumberT n) st = complete (JNumber n) st"
| "start_value TrueT st = complete (JBool True) st"
| "start_value FalseT st = complete (JBool False) st"
| "start_value NullT st = complete JNull st"
| "start_value t st = None"

fun after_comma :: "frame list \<Rightarrow> (expect \<times> frame list) option" where
  "after_comma (InArray xs # st) = Some (Value, InArray xs # st)"
| "after_comma (InObject ms None # st) = Some (Name, InObject ms None # st)"
| "after_comma st = None"

fun shift :: "expect \<Rightarrow> frame list \<Rightarrow> token \<Rightarrow> (expect \<times> frame list) option" where
  "shift Value st t = start_value t st"
| "shift ValueOrEnd st t = (if t = RBracket then close_array st else start_value t st)"
| "shift NameOrEnd st t =
     (case t of StringT k \<Rightarrow> open_name k st | RBrace \<Rightarrow> close_object st | _ \<Rightarrow> None)"
| "shift Name st t = (case t of StringT k \<Rightarrow> open_name k st | _ \<Rightarrow> None)"
| "shift ColonE st t = (if t = Colon then Some (Value, st) else None)"
| "shift CommaOrEnd st t =
     (case t of Comma \<Rightarrow> after_comma st | RBracket \<Rightarrow> close_array st
      | RBrace \<Rightarrow> close_object st | _ \<Rightarrow> None)"
| "shift (Finished v) st t = None"

fun parse_tokens :: "expect \<Rightarrow> frame list \<Rightarrow> token list \<Rightarrow> json option" where
  "parse_tokens e st [] = (case e of Finished v \<Rightarrow> Some v | _ \<Rightarrow> None)"
| "parse_tokens e st (t # ts) =
     (case shift e st t of None \<Rightarrow> None | Some (e', st') \<Rightarrow> parse_tokens e' st' ts)"

definition JSON_parse :: parser where
  "JSON_parse s =
     (case tokens s of
        None \<Rightarrow> Inl SyntaxError
      | Some ts \<Rightarrow> (case parse_tokens Value [] ts of None \<Rightarrow> Inl SyntaxError | Some v \<Rightarrow> Inr v))"

section \<open>Vocabulary of the statements\<close>

text \<open>
  The items a generator yields before it ends, one generator after another, and a
  property of every item.
\<close>

fun gen_append :: "'a gen \<Rightarrow> 'a gen \<Rightarrow> 'a gen" where
  "gen_append Done g = g"
| "gen_append (Yield x r) g = Yield x (gen_append r g)"
| "gen_append (Throw e) g = Throw e"

fun gen_all :: "('a \<Rightarrow> bool) \<Rightarrow> 'a gen \<Rightarrow> bool" where
  "gen_all P Done = True"
| "gen_all P (Yield x r) = (P x \<and> gen_all P r)"
| "gen_all P (Throw e) = True"

text \<open>
  The shape the parser gives a property: a node whose \<^verbatim>\<open>children\<close> start with the node
  of the name, which holds the name as its \<^verbatim>\<open>value\<close>; the node of the value follows
  when the source text has one. \<open>property_name\<close> is the name of an entry of that shape
  and \<open>property_value\<close> its second child.
\<close>

definition property_name :: "heap \<Rightarrow> addr option \<Rightarrow> string option" where
  "property_name h c =
     (case c of
        None \<Rightarrow> None
      | Some p \<Rightarrow>
          (case nchildren (node_at h p) of
             None \<Rightarrow> None
           | Some cs \<Rightarrow>
               (case child cs 0 of
                  None \<Rightarrow> None
                | Some k \<Rightarrow>
                    (case nvalue (node_at h k) of Some (SString s) \<Rightarrow> Some s | _ \<Rightarrow> None))))"

definition property_value :: "heap \<Rightarrow> addr option \<Rightarrow> addr option" where
  "property_value h c =
     (case c of
        None \<Rightarrow> None
      | Some p \<Rightarrow> (case nchildren (node_at h p) of None \<Rightarrow> None | Some cs \<Rightarrow> child cs 1))"

text \<open>The entries of the object an instance is at; none when it is at no object.\<close>

definition members :: "heap \<Rightarrow> 'v JsoncInstance \<Rightarrow> addr option list option" where
  "members h this =
     (case node this of
        None \<Rightarrow> Some []
      | Some a \<Rightarrow> if ntype (node_at h a) = TObject then nchildren (node_at h a) else Some [])"

text \<open>
  An instance is well shaped when, if it is at an object, the object has its
  \<^verbatim>\<open>children\<close> and each is a property of the parser's shape. A key is present when a
  property with that name has a value.
\<close>

definition well_shaped :: "heap \<Rightarrow> 'v JsoncInstance \<Rightarrow> bool" where
  "well_shaped h this =
     (case members h this of
        None \<Rightarrow> False
      | Some cs \<Rightarrow> list_all (\<lambda>c. property_name h c \<noteq> None) cs)"

definition present :: "heap \<Rightarrow> 'v JsoncInstance \<Rightarrow> string \<Rightarrow> bool" where
  "present h this key =
     (case members h this of
        None \<Rightarrow> False
      | Some cs \<Rightarrow> list_ex (\<lambda>c. property_name h c = Some key \<and> property_value h c \<noteq> None) cs)"

text \<open>
  A store is well shaped when every entry of the \<^verbatim>\<open>children\<close> of every object is a
  node and, if that node has \<^verbatim>\<open>children\<close>, they start with a node and, when they are
  two, are two nodes.
\<close>

definition entry_ok :: "heap \<Rightarrow> addr option \<Rightarrow> bool" where
  "entry_ok h c =
     (case c of
        None \<Rightarrow> False
      | Some p \<Rightarrow>
          (case nchildren (node_at h p) of
             None \<Rightarrow> True
           | Some cs \<Rightarrow> child cs 0 \<noteq> None \<and> (length cs \<noteq> 2 \<or> child cs 1 \<noteq> None)))"

definition node_ok :: "heap \<Rightarrow> jnode \<Rightarrow> bool" where
  "node_ok h n =
     (ntype n \<noteq> TObject \<or>
      (case nchildren n of None \<Rightarrow> True | Some cs \<Rightarrow> list_all (entry_ok h) cs))"

definition wf_heap :: "heap \<Rightarrow> bool" where
  "wf_heap h = (\<forall>a. node_ok h (node_at h a))"

section \<open>Documents\<close>

text \<open>
  The stores below are the trees \<^verbatim>\<open>parseTree\<close> builds for five texts (with comments
  and trailing commas allowed, as \<^verbatim>\<open>fromTextDocument\<close> asks): the address of a node is
  its place in the list, and an address past the list holds a node nothing refers to.
\<close>

definition unused :: jnode where
  "unused = \<lparr>ntype = TNull, noffset = 0, nlength = 0, nvalue = None, nchildren = None,
             nparent = None\<rparr>"

definition store_of :: "jnode list \<Rightarrow> heap" where
  "store_of ns = \<lparr>node_at = (\<lambda>a. if a < length ns then ns ! a else unused), next_addr = length ns\<rparr>"

definition composite :: "node_type \<Rightarrow> int \<Rightarrow> int \<Rightarrow> addr list \<Rightarrow> addr option \<Rightarrow> jnode" where
  "composite t off len cs p =
     \<lparr>ntype = t, noffset = off, nlength = len, nvalue = None, nchildren = Some (map Some cs),
      nparent = p\<rparr>"

definition literal :: "node_type \<Rightarrow> int \<Rightarrow> int \<Rightarrow> scalar \<Rightarrow> addr option \<Rightarrow> jnode" where
  "literal t off len v p =
     \<lparr>ntype = t, noffset = off, nlength = len, nvalue = Some v, nchildren = None, nparent = p\<rparr>"

definition doc_ab :: string where
  \<open>doc_ab = ''{"a": {"b": 1}}''\<close>

definition tree_ab :: heap where
  "tree_ab = store_of
     [composite TObject 0 15 [1] None,
      composite TProperty 1 13 [2, 3] (Some 0),
      literal TString 1 3 (SString ''a'') (Some 1),
      composite TObject 6 8 [4] (Some 1),
      composite TProperty 7 6 [5, 6] (Some 3),
      literal TString 7 3 (SString ''b'') (Some 4),
      literal TNumber 12 1 (SNumber 1) (Some 4)]"

definition doc_trailing :: string where
  \<open>doc_trailing = ''{"a": [1,]}''\<close>

definition tree_trailing :: heap where
  "tree_trailing = store_of
     [composite TObject 0 11 [1] None,
      composite TProperty 1 9 [2, 3] (Some 0),
      literal TString 1 3 (SString ''a'') (Some 1),
      composite TArray 6 4 [4] (Some 1),
      literal TNumber 7 1 (SNumber 1) (Some 3)]"

definition doc_twice :: string where
  \<open>doc_twice = ''{"a": 1, "a": 2}''\<close>

definition tree_twice :: heap where
  "tree_twice = store_of
     [composite TObject 0 16 [1, 4] None,
      composite TProperty 1 6 [2, 3] (Some 0),
      literal TString 1 3 (SString ''a'') (Some 1),
      literal TNumber 6 1 (SNumber 1) (Some 1),
      composite TProperty 9 6 [5, 6] (Some 0),
      literal TString 9 3 (SString ''a'') (Some 4),
      literal TNumber 14 1 (SNumber 2) (Some 4)]"

definition doc_partial :: string where
  \<open>doc_partial = ''{"x": 1, "a": }''\<close>

definition tree_partial :: heap where
  "tree_partial = store_of
     [composite TObject 0 15 [1, 4] None,
      composite TProperty 1 6 [2, 3] (Some 0),
      literal TString 1 3 (SString ''x'') (Some 1),
      literal TNumber 6 1 (SNumber 1) (Some 1),
      composite TProperty 9 6 [5] (Some 0),
      literal TString 9 3 (SString ''a'') (Some 4)]"

definition doc_repeated :: string where
  \<open>doc_repeated = ''{"a": 1, "a": }''\<close>

definition tree_repeated :: heap where
  "tree_repeated = store_of
     [composite TObject 0 15 [1, 4] None,
      composite TProperty 1 6 [2, 3] (Some 0),
      literal TString 1 3 (SString ''a'') (Some 1),
      literal TNumber 6 1 (SNumber 1) (Some 1),
      composite TProperty 9 6 [5] (Some 0),
      literal TString 9 3 (SString ''a'') (Some 4)]"

text \<open>
  The instance \<^verbatim>\<open>fromTextDocument\<close> returns for a text whose tree has its root at
  address 0, as the five trees above have: only the address of the root enters the
  instance, the store is passed to the operations.
\<close>

definition root_instance :: "string \<Rightarrow> 'v JsoncInstance" where
  "root_instance json = fst (fromTextDocument (\<lambda>text. (Some 0, store_of [])) json)"

text \<open>
  The store that \<^verbatim>\<open>asEmbedded\<close> leaves when it is called on the instance at
  \<^verbatim>\<open>/a\<close> of the first document.
\<close>

definition store_after_embedding :: heap where
  "store_after_embedding =
     (case asEmbedded tree_ab
             (\<lparr>textDocument = doc_ab, root = Some 0, node = Some 3, pointer = ''/a'',
               annotations = None\<rparr> :: unit JsoncInstance) of
        Inl e \<Rightarrow> tree_ab
      | Inr (embedded, h) \<Rightarrow> h)"

text \<open>
  A resolver of the shape of the 2020-12 dialect, which maps the keyword
  \<^verbatim>\<open>title\<close> to \<^verbatim>\<open>https://json-schema.org/keyword/title\<close>.
\<close>

definition keyword_uri :: resolver where
  "keyword_uri keyword dialectId = ''https://json-schema.org/keyword/'' @ keyword"

section \<open>Properties of the pointer codec\<close>


lemma replace_pair_Cons_neq:
  "x \<noteq> a \<Longrightarrow> replace_pair a b c (x # s) = x # replace_pair a b c s"
  by (cases s) simp_all

lemma escape_Nil: "escape [] = []"
  by (simp add: escape_def replace_char_def)

lemma escape_Cons:
  "escape (x # s) =
     (if x = CHR ''~'' then ''~0'' else if x = CHR ''/'' then ''~1'' else [x]) @ escape s"
  by (simp add: escape_def replace_char_def)

lemma slash_notin_escape: "CHR ''/'' \<notin> set (escape s)"
  by (induction s) (simp_all add: escape_Nil escape_Cons)

lemma unescape_pass1:
  "replace_pair CHR ''~'' CHR ''1'' CHR ''/'' (escape s) = replace_char CHR ''~'' ''~0'' s"
  by (induction s) (simp_all add: escape_Nil escape_Cons replace_char_def replace_pair_Cons_neq)

lemma unescape_pass2:
  "replace_pair CHR ''~'' CHR ''0'' CHR ''~'' (replace_char CHR ''~'' ''~0'' s) = s"
  by (induction s) (simp_all add: replace_char_def replace_pair_Cons_neq)

lemma unescape_escape: "unescape (escape s) = s"
  by (simp add: unescape_def unescape_pass1 unescape_pass2)

lemma foldl_append_encoded:
  "foldl (\<lambda>pointer segment. JsonPointer_append segment pointer) acc path = acc @ encoded path"
  by (induction path arbitrary: acc) (simp_all add: encoded_def JsonPointer_append_def)

lemma encode_path_encoded: "encode_path path = encoded path"
  by (simp add: encode_path_def foldl_append_encoded)

lemma takeWhile_encoded: "takeWhile (\<lambda>x. x \<noteq> CHR ''/'') (escape s @ encoded rest) = escape s"
proof -
  have "takeWhile (\<lambda>x. x \<noteq> CHR ''/'') (encoded rest) = []"
    by (cases rest) (simp_all add: encoded_def)
  moreover have "\<forall>x\<in>set (escape s). x \<noteq> CHR ''/''"
    using slash_notin_escape [of s] by auto
  ultimately show ?thesis by (simp add: takeWhile_append2)
qed

lemma js_slice_nat:
  "a \<le> b \<Longrightarrow> b \<le> length s \<Longrightarrow> js_slice s (int a) (int b) = take (b - a) (drop a s)"
  by (simp add: js_slice_def js_index_def Let_def)

lemma segments_loop_encoded:
  "segments_loop (pre @ encoded path) (length pre + 1) (length pre) = path"
proof (induction path arbitrary: pre)
  case Nil
  show ?case by (subst segments_loop.simps) (simp add: encoded_def)
next
  case (Cons s rest)
  let ?p = "pre @ encoded (s # rest)"
  let ?e = "length pre + 1 + length (escape s)"
  have p: "?p = (pre @ CHR ''/'' # escape s) @ encoded rest"
    by (simp add: encoded_def)
  have dr: "drop (length pre + 1) ?p = escape s @ encoded rest"
    by (simp add: encoded_def)
  have len: "length ?p = ?e + length (encoded rest)"
    by (simp add: encoded_def)
  have idx: "(if indexOf ?p CHR ''/'' (length pre + 1) = - 1 then length ?p
              else nat (indexOf ?p CHR ''/'' (length pre + 1))) = ?e"
    unfolding indexOf_def Let_def dr takeWhile_encoded using len by auto
  have "js_slice ?p (int (length pre + 1)) (int ?e)
        = take (?e - (length pre + 1)) (drop (length pre + 1) ?p)"
    using len by (intro js_slice_nat) simp_all
  then have sl: "js_slice ?p (int (length pre + 1)) (int ?e) = escape s"
    unfolding dr by simp
  have lt: "length pre < length ?p" using len by simp
  have "segments_loop ?p (length pre + 1) (length pre)
        = unescape (escape s) # segments_loop ?p (?e + 1) ?e"
    by (subst segments_loop.simps) (simp only: lt if_True Let_def idx sl)
  also have "segments_loop ?p (?e + 1) ?e = rest"
    using Cons.IH [of "pre @ CHR ''/'' # escape s"] unfolding p by simp
  finally show ?case by (simp add: unescape_escape)
qed

lemma pointer_segments_encoded: "pointerSegments (encoded path) = Inr path"
proof -
  have "segments_loop (encoded path) 1 0 = path"
    using segments_loop_encoded [of "[]" path] by simp
  moreover have "encoded path = [] \<or> hd (encoded path) = CHR ''/''"
    by (cases path) (simp_all add: encoded_def)
  ultimately show ?thesis
    by (auto simp: pointerSegments_def)
qed

text \<open>
  Claim C9. For every finite path of raw segment strings, also with \<^verbatim>\<open>/\<close> and
  \<^verbatim>\<open>~\<close> in them, decoding the pointer that encoding the path gives (each segment
  appended with \<^verbatim>\<open>~\<close> escaped before \<^verbatim>\<open>/\<close>) yields the path again.
\<close>

theorem pointer_round_trip: "pointerSegments (encode_path segments) = Inr segments"
proof -
  have enc: "encode_path segments = encoded segments"
    by (rule encode_path_encoded)
  have "segments_loop (encoded segments) 1 0 = segments"
    using segments_loop_encoded [of "[]" segments] by simp
  moreover have "encoded segments = [] \<or> hd (encoded segments) = CHR ''/''"
    by (cases segments) (simp_all add: encoded_def)
  ultimately show ?thesis
    by (auto simp: pointerSegments_def enc)
qed

lemma segments_loop_Nil: "segments_loop [] segmentStart segmentEnd = []"
  by (subst segments_loop.simps) simp

text \<open>
  Claim C8. Decoding raises the malformed-pointer error exactly when the pointer is not
  empty and its first character is not \<^verbatim>\<open>/\<close>; it raises nothing else; and the empty
  pointer decodes to no segments.
\<close>

theorem pointerSegments_raises_iff:
  "(pointerSegments p = Inl (InvalidPointer p)) = (p \<noteq> [] \<and> hd p \<noteq> CHR ''/'')
   \<and> isl (pointerSegments p) = (p \<noteq> [] \<and> hd p \<noteq> CHR ''/'')
   \<and> pointerSegments [] = Inr []"
proof (cases p)
  case Nil
  then show ?thesis
    by (simp add: pointerSegments_def segments_loop_Nil)
next
  case (Cons c s)
  then show ?thesis
    by (cases "c = CHR ''/''") (simp_all add: pointerSegments_def segments_loop_Nil)
qed

lemma escape_plain: "CHR ''~'' \<notin> set s \<Longrightarrow> CHR ''/'' \<notin> set s \<Longrightarrow> escape s = s"
  by (induction s) (auto simp: escape_def replace_char_def)

lemma segments_of_plain:
  assumes "\<forall>s\<in>set path. CHR ''~'' \<notin> set s \<and> CHR ''/'' \<notin> set s"
  shows "pointerSegments (concat (map (\<lambda>s. CHR ''/'' # s) path)) = Inr path"
proof -
  have "encoded path = concat (map (\<lambda>s. CHR ''/'' # s) path)"
    unfolding encoded_def using assms
    by (intro arg_cong [where f = concat] map_cong) (simp_all add: escape_plain)
  then show ?thesis
    using pointer_segments_encoded [of path] by simp
qed

lemma segments_of_one:
  "CHR ''/'' \<notin> set s \<Longrightarrow> CHR ''~'' \<notin> set s \<Longrightarrow> pointerSegments (CHR ''/'' # s) = Inr [s]"
  using segments_of_plain [of "[s]"] by simp

section \<open>Properties of navigation\<close>


lemma type_name_object: "(type_name t = ''object'') = (t = TObject)"
  by (cases t) simp_all

lemma type_name_array: "(type_name t = ''array'') = (t = TArray)"
  by (cases t) simp_all

lemma type_name_not_undefined: "type_name t \<noteq> ''undefined''"
  by (cases t) simp_all

lemma property_nameD:
  assumes "property_name h c = Some s"
  obtains p cs k where "c = Some p" "nchildren (node_at h p) = Some cs" "child cs 0 = Some k"
    "nvalue (node_at h k) = Some (SString s)"
  using assms
  by (auto simp: property_name_def split: option.splits scalar.splits)

lemma value_is_cached:
  "nvalue (node_at h k) = Some (SString s) \<Longrightarrow> node x = Some k
   \<Longrightarrow> value_is parse h key x = Inr (s = key)"
  by (simp add: value_is_def value_of_def)

lemma entries_loop_shaped:
  assumes "property_name h c = Some s"
  shows "entries_loop h this (c # rest) =
     (if property_value h c = None then entries_loop h this rest
      else Yield
        (\<lparr>textDocument = textDocument this, root = root this,
          node = (case c of Some p \<Rightarrow> (case nchildren (node_at h p) of Some cs \<Rightarrow> child cs 0)),
          pointer = JsonPointer_append s (pointer this), annotations = annotations this\<rparr>,
         \<lparr>textDocument = textDocument this, root = root this, node = property_value h c,
          pointer = JsonPointer_append s (pointer this), annotations = annotations this\<rparr>)
        (entries_loop h this rest))"
  using assms by (elim property_nameD) (simp add: property_value_def)

lemma find_entries_loop_absent:
  assumes "list_all (\<lambda>c. property_name h c \<noteq> None) cs"
    and "\<not> list_ex (\<lambda>c. property_name h c = Some key \<and> property_value h c \<noteq> None) cs"
  shows "find_gen (\<lambda>(k, v). value_is parse h key k) (entries_loop h this cs) = Inr None"
  using assms
proof (induction cs)
  case Nil
  show ?case by simp
next
  case (Cons c cs)
  from Cons.prems(1) obtain s where s: "property_name h c = Some s" by auto
  from s obtain p kids k where c: "c = Some p" "nchildren (node_at h p) = Some kids"
      "child kids 0 = Some k" "nvalue (node_at h k) = Some (SString s)"
    by (rule property_nameD)
  have IH: "find_gen (\<lambda>(k, v). value_is parse h key k) (entries_loop h this cs) = Inr None"
    using Cons by simp
  show ?case
  proof (cases "property_value h c = None")
    case True
    then show ?thesis using IH s by (simp add: entries_loop_shaped del: entries_loop.simps)
  next
    case False
    with Cons.prems(2) s have "s \<noteq> key" by auto
    then show ?thesis
      using IH s False c
      by (simp add: entries_loop_shaped value_is_cached del: entries_loop.simps)
  qed
qed

lemma step_absent:
  assumes "well_shaped h this" and "\<not> present h this key"
  shows "step parse h this key =
     Inr \<lparr>textDocument = textDocument this, root = root this, node = None,
          pointer = JsonPointer_append key (pointer this), annotations = None\<rparr>"
proof -
  have "find_gen (\<lambda>(k, v). value_is parse h key k) (entries h this) = Inr None"
  proof (cases "typeOf h this = ''object''")
    case False
    then show ?thesis by (simp add: entries_def)
  next
    case True
    then obtain a where a: "node this = Some a" "ntype (node_at h a) = TObject"
      by (auto simp: typeOf_def type_name_object split: option.splits)
    with assms obtain cs where cs: "nchildren (node_at h a) = Some cs"
        "list_all (\<lambda>c. property_name h c \<noteq> None) cs"
        "\<not> list_ex (\<lambda>c. property_name h c = Some key \<and> property_value h c \<noteq> None) cs"
      by (auto simp: well_shaped_def present_def members_def split: option.splits)
    show ?thesis
      using True a cs(1) find_entries_loop_absent [OF cs(2,3)]
      by (simp add: entries_def)
  qed
  then show ?thesis by (simp add: step_def)
qed

text \<open>
  Claim C6. For an instance \<open>this\<close> over a tree of the parser's shape and a key that no
  property with a value has (also when \<open>this\<close> is at no object, or at no node),
  \<^verbatim>\<open>step\<close> raises nothing and returns an instance at no node, whose pointer is the
  pointer of \<open>this\<close> extended by the escaped key, whose \<^verbatim>\<open>value()\<close> is
  \<^verbatim>\<open>undefined\<close> and whose \<^verbatim>\<open>typeOf()\<close> is the string \<^verbatim>\<open>undefined\<close>, whatever
  \<^verbatim>\<open>JSON.parse\<close> does.
\<close>

theorem step_absent_key:
  assumes "well_shaped h this" and "\<not> present h this key"
  shows "\<exists>r. step parse h this key = Inr r \<and> node r = None
    \<and> pointer r = pointer this @ ''/'' @ escape key
    \<and> root r = root this
    \<and> value_of parse h r = Inr None \<and> typeOf h r = ''undefined''"
  using step_absent [OF assms, of parse]
  by (simp add: value_of_def typeOf_def JsonPointer_append_def)


lemmas tree_defs = store_of_def composite_def literal_def unused_def child_def
  root_instance_def fromTextDocument_def

lemmas shape_defs = well_shaped_def present_def members_def property_name_def
  property_value_def

theorem step_absent_key_witness:
  "well_shaped tree_ab (root_instance doc_ab :: nat JsoncInstance)
   \<and> \<not> present tree_ab (root_instance doc_ab :: nat JsoncInstance) ''x''
   \<and> (\<exists>r. step JSON_parse tree_ab (root_instance doc_ab :: nat JsoncInstance) ''x'' = Inr r
        \<and> node r = None \<and> pointer r = ''/x'' \<and> root r = Some 0
        \<and> value_of JSON_parse tree_ab r = Inr None \<and> typeOf tree_ab r = ''undefined'')"
proof -
  have w: "well_shaped tree_ab (root_instance doc_ab :: nat JsoncInstance)"
    by (simp add: shape_defs tree_ab_def tree_defs)
  have p: "\<not> present tree_ab (root_instance doc_ab :: nat JsoncInstance) ''x''"
    by (simp add: shape_defs tree_ab_def tree_defs)
  have e: "escape ''x'' = ''x''"
    by (simp add: escape_def replace_char_def)
  show ?thesis
    using step_absent_key [OF w p, of JSON_parse] w p
    by (simp add: e) (simp add: root_instance_def fromTextDocument_def)
qed

lemma entries_loop_append:
  "entries_loop h this (xs @ ys) = gen_append (entries_loop h this xs) (entries_loop h this ys)"
  by (induction xs) (simp_all split: option.splits sum.splits)

lemma keys_loop_append:
  "keys_loop h this (xs @ ys) = gen_append (keys_loop h this xs) (keys_loop h this ys)"
  by (induction xs) (simp_all split: option.splits sum.splits)

lemma values_loop_append:
  "values_loop h this (xs @ ys) = gen_append (values_loop h this xs) (values_loop h this ys)"
  by (induction xs) (simp_all split: option.splits sum.splits)

lemma some_keys_loop_reaches:
  assumes "list_all (\<lambda>c. property_name h c \<noteq> None) pre" and "value_is parse h key x = Inr True"
  shows "some_gen (value_is parse h key) (gen_append (keys_loop h this pre) (Yield x g)) = Inr True"
  using assms(1)
proof (induction pre)
  case Nil
  show ?case using assms(2) by simp
next
  case (Cons c pre)
  from Cons.prems obtain s where s: "property_name h c = Some s" by auto
  from s obtain p kids k where c: "c = Some p" "nchildren (node_at h p) = Some kids"
      "child kids 0 = Some k" "nvalue (node_at h k) = Some (SString s)"
    by (rule property_nameD)
  show ?case using Cons c by (simp add: value_is_cached)
qed

text \<open>
  The companion of claim C6: for a key that is present, \<^verbatim>\<open>step\<close> returns the instance
  at the value of the first property of that name that has a value, with the extended
  pointer and the annotations of the instance it is called on.
\<close>


lemma find_entries_loop_present:
  assumes "list_all (\<lambda>c. property_name h c \<noteq> None) cs"
    and "find (\<lambda>c. property_name h c = Some key \<and> property_value h c \<noteq> None) cs = Some c"
  shows "\<exists>k. find_gen (\<lambda>(k, v). value_is parse h key k) (entries_loop h this cs) =
     Inr (Some
       (\<lparr>textDocument = textDocument this, root = root this, node = Some k,
         pointer = JsonPointer_append key (pointer this), annotations = annotations this\<rparr>,
        \<lparr>textDocument = textDocument this, root = root this, node = property_value h c,
         pointer = JsonPointer_append key (pointer this), annotations = annotations this\<rparr>))"
  using assms
proof (induction cs)
  case Nil
  then show ?case by simp
next
  case (Cons x cs)
  from Cons.prems(1) obtain s where s: "property_name h x = Some s" by auto
  from s obtain p kids k where x: "x = Some p" "nchildren (node_at h p) = Some kids"
      "child kids 0 = Some k" "nvalue (node_at h k) = Some (SString s)"
    by (rule property_nameD)
  show ?case
  proof (cases "property_value h x = None")
    case True
    with Cons s show ?thesis
      by (simp add: entries_loop_shaped del: entries_loop.simps)
  next
    case False
    show ?thesis
    proof (cases "s = key")
      case True
      with False s Cons.prems(2) have "c = x" by simp
      with True False s x show ?thesis
        by (auto simp: entries_loop_shaped value_is_cached simp del: entries_loop.simps)
    next
      case ne: False
      with Cons s False x show ?thesis
        by (auto simp: entries_loop_shaped value_is_cached simp del: entries_loop.simps)
    qed
  qed
qed

lemma step_present:
  assumes "well_shaped h this" and "node this = Some a" and "ntype (node_at h a) = TObject"
    and "nchildren (node_at h a) = Some cs"
    and "find (\<lambda>c. property_name h c = Some key \<and> property_value h c \<noteq> None) cs = Some c"
  shows "step parse h this key =
     Inr \<lparr>textDocument = textDocument this, root = root this, node = property_value h c,
          pointer = pointer this @ ''/'' @ escape key, annotations = annotations this\<rparr>"
proof -
  have sh: "list_all (\<lambda>c. property_name h c \<noteq> None) cs"
    using assms(1-4) by (simp add: well_shaped_def members_def)
  have obj: "typeOf h this = ''object''"
    using assms(2,3) by (simp add: typeOf_def)
  from find_entries_loop_present [OF sh assms(5), of parse this]
  show ?thesis
    using obj assms(2,4) by (auto simp: step_def entries_def JsonPointer_append_def)
qed

lemma find_skip: "\<not> P x \<Longrightarrow> find P (xs @ x # ys) = find P (xs @ ys)"
  by (induction xs) simp_all

lemma present_find:
  assumes "present h this key" and "node this = Some a" and "ntype (node_at h a) = TObject"
    and "nchildren (node_at h a) = Some cs"
  obtains c where
    "find (\<lambda>c. property_name h c = Some key \<and> property_value h c \<noteq> None) cs = Some c"
    "property_value h c \<noteq> None"
proof -
  let ?P = "\<lambda>c. property_name h c = Some key \<and> property_value h c \<noteq> None"
  from assms have "list_ex ?P cs"
    by (simp add: present_def members_def)
  then have "find ?P cs \<noteq> None"
    unfolding find_None_iff list_ex_iff by blast
  then obtain c where c: "find ?P cs = Some c" by blast
  then have "?P c" by (auto simp: find_Some_iff)
  with c that show ?thesis by blast
qed

text \<open>
  Claim C10 as it is stated fails where another property of the same name has a value.
  The tree of \<^verbatim>\<open>{"a": 1, "a": }\<close> is an object with a property (node 4) that has the
  node of its name \<^verbatim>\<open>a\<close> and no value; \<^verbatim>\<open>has("a")\<close> is true, and
  \<^verbatim>\<open>step("a")\<close> returns the instance at node 3, the number 1 of the first
  property, not an instance at no node.
\<close>

theorem repeated_name_counterexample:
  "ntype (node_at tree_repeated 0) = TObject
   \<and> nchildren (node_at tree_repeated 0) = Some [Some 1, Some 4]
   \<and> nchildren (node_at tree_repeated 4) = Some [Some 5]
   \<and> nvalue (node_at tree_repeated 5) = Some (SString ''a'')
   \<and> has JSON_parse tree_repeated (root_instance doc_repeated :: nat JsoncInstance) ''a''
     = Inr True
   \<and> step JSON_parse tree_repeated (root_instance doc_repeated :: nat JsoncInstance) ''a''
     = Inr \<lparr>textDocument = doc_repeated, root = Some 0, node = Some 3, pointer = ''/a'',
            annotations = Some []\<rparr>
   \<and> value_of JSON_parse tree_repeated
       (\<lparr>textDocument = doc_repeated, root = Some 0, node = Some 3, pointer = ''/a'',
         annotations = Some []\<rparr> :: nat JsoncInstance) = Inr (Some (JNumber 1))"
proof -
  have e: "escape ''a'' = ''a''" by (simp add: escape_plain)
  have 1: "ntype (node_at tree_repeated 0) = TObject"
    "nchildren (node_at tree_repeated 0) = Some [Some 1, Some 4]"
    "nchildren (node_at tree_repeated 4) = Some [Some 5]"
    "nvalue (node_at tree_repeated 5) = Some (SString ''a'')"
    by (simp_all add: tree_repeated_def tree_defs)
  have 2: "has JSON_parse tree_repeated (root_instance doc_repeated :: nat JsoncInstance) ''a''
     = Inr True"
    by (simp add: has_def keys_def typeOf_def value_is_def value_of_def
        JsonPointer_append_def e tree_repeated_def tree_defs)
  have 3: "step JSON_parse tree_repeated (root_instance doc_repeated :: nat JsoncInstance) ''a''
     = Inr \<lparr>textDocument = doc_repeated, root = Some 0, node = Some 3, pointer = ''/a'',
            annotations = Some []\<rparr>"
    by (simp add: step_def entries_def typeOf_def value_is_def value_of_def
        JsonPointer_append_def e tree_repeated_def tree_defs)
  have 4: "value_of JSON_parse tree_repeated
       (\<lparr>textDocument = doc_repeated, root = Some 0, node = Some 3, pointer = ''/a'',
         annotations = Some []\<rparr> :: nat JsoncInstance) = Inr (Some (JNumber 1))"
    by (simp add: value_of_def tree_repeated_def tree_defs)
  from 1 2 3 4 show ?thesis by simp
qed

text \<open>
  Claim C10, amended. In an object with a property \<open>p\<close> that has the node \<open>k\<close> of its
  name \<open>key\<close> and no value: \<^verbatim>\<open>entries\<close> yields what it yields for the other
  properties alone; \<^verbatim>\<open>keys\<close> yields an instance at \<open>k\<close> in its place; and
  \<^verbatim>\<open>values\<close> yields in its place an instance at no node. When the object is of the
  parser's shape, \<^verbatim>\<open>has(key)\<close> is true, and \<^verbatim>\<open>step(key)\<close> returns an instance
  at no node exactly when no other property named \<open>key\<close> has a value: when one has,
  \<^verbatim>\<open>step(key)\<close> returns the instance at the value of the first such property.
\<close>

theorem partial_property:
  assumes "node this = Some a" and "ntype (node_at h a) = TObject"
    and "nchildren (node_at h a) = Some (pre @ Some p # post)"
    and "nchildren (node_at h p) = Some [Some k]"
    and "nvalue (node_at h k) = Some (SString key)"
  shows "entries h this = entries_loop h this (pre @ post)
    \<and> keys h this =
        gen_append (keys_loop h this pre)
          (Yield \<lparr>textDocument = textDocument this, root = root this, node = Some k,
                  pointer = pointer this @ ''/'' @ escape key,
                  annotations = annotations this\<rparr>
             (keys_loop h this post))
    \<and> values_of h this =
        gen_append (values_loop h this pre)
          (Yield \<lparr>textDocument = textDocument this, root = root this, node = None,
                  pointer = pointer this @ ''/'' @ escape key,
                  annotations = annotations this\<rparr>
             (values_loop h this post))
    \<and> (well_shaped h this \<longrightarrow>
        has parse h this key = Inr True
        \<and> (\<not> present h this key \<longrightarrow>
             step parse h this key =
               Inr \<lparr>textDocument = textDocument this, root = root this, node = None,
                    pointer = pointer this @ ''/'' @ escape key, annotations = None\<rparr>)
        \<and> (present h this key \<longrightarrow>
             (\<exists>c v. find (\<lambda>c. property_name h c = Some key \<and> property_value h c \<noteq> None)
                       (pre @ post) = Some c
                \<and> property_value h c = Some v
                \<and> step parse h this key =
                    Inr \<lparr>textDocument = textDocument this, root = root this, node = Some v,
                         pointer = pointer this @ ''/'' @ escape key,
                         annotations = annotations this\<rparr>)))"
proof -
  let ?P = "\<lambda>c. property_name h c = Some key \<and> property_value h c \<noteq> None"
  have obj: "typeOf h this = ''object''"
    using assms(1,2) by (simp add: typeOf_def)
  have one: "child [Some k] 0 = Some k" "child [Some k] 1 = None"
    by (simp_all add: child_def)
  have E: "entries h this = entries_loop h this (pre @ post)"
    using obj assms(1,3,4) one
    by (simp add: entries_def entries_loop_append)
  have K: "keys h this =
        gen_append (keys_loop h this pre)
          (Yield \<lparr>textDocument = textDocument this, root = root this, node = Some k,
                  pointer = pointer this @ ''/'' @ escape key,
                  annotations = annotations this\<rparr>
             (keys_loop h this post))"
    using obj assms(1,3,4,5) one
    by (simp add: keys_def keys_loop_append JsonPointer_append_def)
  have V: "values_of h this =
        gen_append (values_loop h this pre)
          (Yield \<lparr>textDocument = textDocument this, root = root this, node = None,
                  pointer = pointer this @ ''/'' @ escape key,
                  annotations = annotations this\<rparr>
             (values_loop h this post))"
    using obj assms(1,3,4,5) one
    by (simp add: values_of_def values_loop_append JsonPointer_append_def)
  have H: "has parse h this key = Inr True" if w: "well_shaped h this"
  proof -
    have pre: "list_all (\<lambda>c. property_name h c \<noteq> None) pre"
      using assms(1,2,3) w by (simp add: well_shaped_def members_def)
    show ?thesis
      unfolding has_def K
      by (rule some_keys_loop_reaches [OF pre]) (simp add: value_is_cached [OF assms(5)])
  qed
  have S0: "step parse h this key =
        Inr \<lparr>textDocument = textDocument this, root = root this, node = None,
             pointer = pointer this @ ''/'' @ escape key, annotations = None\<rparr>"
    if "well_shaped h this" "\<not> present h this key"
    using step_absent [OF that, of parse] by (simp add: JsonPointer_append_def)
  have S1: "\<exists>c v. find ?P (pre @ post) = Some c \<and> property_value h c = Some v
      \<and> step parse h this key =
          Inr \<lparr>textDocument = textDocument this, root = root this, node = Some v,
               pointer = pointer this @ ''/'' @ escape key, annotations = annotations this\<rparr>"
    if w: "well_shaped h this" and pr: "present h this key"
  proof -
    from present_find [OF pr assms(1,2,3)] obtain c
      where c: "find ?P (pre @ Some p # post) = Some c" "property_value h c \<noteq> None"
      by blast
    have np: "\<not> ?P (Some p)"
      using assms(4) one by (simp add: property_value_def)
    have "find ?P (pre @ Some p # post) = find ?P (pre @ post)"
      using np by (rule find_skip)
    with c have f: "find ?P (pre @ post) = Some c" by simp
    from c(2) obtain v where v: "property_value h c = Some v" by blast
    from step_present [OF w assms(1,2,3) c(1), of parse] v f show ?thesis by simp
  qed
  from E K V H S0 S1 show ?thesis by blast
qed

theorem partial_property_witness:
  "node (root_instance doc_partial :: nat JsoncInstance) = Some 0
   \<and> ntype (node_at tree_partial 0) = TObject
   \<and> nchildren (node_at tree_partial 0) = Some ([Some 1] @ Some 4 # [])
   \<and> nchildren (node_at tree_partial 4) = Some [Some 5]
   \<and> nvalue (node_at tree_partial 5) = Some (SString ''a'')
   \<and> well_shaped tree_partial (root_instance doc_partial :: nat JsoncInstance)
   \<and> \<not> present tree_partial (root_instance doc_partial :: nat JsoncInstance) ''a''
   \<and> entries tree_partial (root_instance doc_partial :: nat JsoncInstance) =
        Yield (\<lparr>textDocument = doc_partial, root = Some 0, node = Some 2, pointer = ''/x'',
                 annotations = Some []\<rparr>,
               \<lparr>textDocument = doc_partial, root = Some 0, node = Some 3, pointer = ''/x'',
                 annotations = Some []\<rparr>) Done
   \<and> keys tree_partial (root_instance doc_partial :: nat JsoncInstance) =
        Yield \<lparr>textDocument = doc_partial, root = Some 0, node = Some 2, pointer = ''/x'',
                annotations = Some []\<rparr>
          (Yield \<lparr>textDocument = doc_partial, root = Some 0, node = Some 5, pointer = ''/a'',
                   annotations = Some []\<rparr> Done)
   \<and> values_of tree_partial (root_instance doc_partial :: nat JsoncInstance) =
        Yield \<lparr>textDocument = doc_partial, root = Some 0, node = Some 3, pointer = ''/x'',
                annotations = Some []\<rparr>
          (Yield \<lparr>textDocument = doc_partial, root = Some 0, node = None, pointer = ''/a'',
                   annotations = Some []\<rparr> Done)
   \<and> has JSON_parse tree_partial (root_instance doc_partial :: nat JsoncInstance) ''a'' = Inr True
   \<and> step JSON_parse tree_partial (root_instance doc_partial :: nat JsoncInstance) ''a'' =
        Inr \<lparr>textDocument = doc_partial, root = Some 0, node = None, pointer = ''/a'',
             annotations = None\<rparr>
   \<and> node (root_instance doc_repeated :: nat JsoncInstance) = Some 0
   \<and> ntype (node_at tree_repeated 0) = TObject
   \<and> nchildren (node_at tree_repeated 0) = Some ([Some 1] @ Some 4 # [])
   \<and> nchildren (node_at tree_repeated 4) = Some [Some 5]
   \<and> nvalue (node_at tree_repeated 5) = Some (SString ''a'')
   \<and> well_shaped tree_repeated (root_instance doc_repeated :: nat JsoncInstance)
   \<and> present tree_repeated (root_instance doc_repeated :: nat JsoncInstance) ''a''
   \<and> has JSON_parse tree_repeated (root_instance doc_repeated :: nat JsoncInstance) ''a''
     = Inr True
   \<and> step JSON_parse tree_repeated (root_instance doc_repeated :: nat JsoncInstance) ''a'' =
        Inr \<lparr>textDocument = doc_repeated, root = Some 0, node = Some 3, pointer = ''/a'',
             annotations = Some []\<rparr>"
proof -
  let ?r = "root_instance doc_partial :: nat JsoncInstance"
  let ?q = "root_instance doc_repeated :: nat JsoncInstance"
  have h1: "node ?r = Some 0" by (simp add: tree_defs)
  have h2: "ntype (node_at tree_partial 0) = TObject" by (simp add: tree_partial_def tree_defs)
  have h3: "nchildren (node_at tree_partial 0) = Some ([Some 1] @ Some 4 # [])"
    by (simp add: tree_partial_def tree_defs)
  have h4: "nchildren (node_at tree_partial 4) = Some [Some 5]"
    by (simp add: tree_partial_def tree_defs)
  have h5: "nvalue (node_at tree_partial 5) = Some (SString ''a'')"
    by (simp add: tree_partial_def tree_defs)
  have h6: "well_shaped tree_partial ?r" by (simp add: shape_defs tree_partial_def tree_defs)
  have h7: "\<not> present tree_partial ?r ''a''" by (simp add: shape_defs tree_partial_def tree_defs)
  have g1: "node ?q = Some 0" by (simp add: tree_defs)
  have g2: "ntype (node_at tree_repeated 0) = TObject" by (simp add: tree_repeated_def tree_defs)
  have g3: "nchildren (node_at tree_repeated 0) = Some ([Some 1] @ Some 4 # [])"
    by (simp add: tree_repeated_def tree_defs)
  have g4: "nchildren (node_at tree_repeated 4) = Some [Some 5]"
    by (simp add: tree_repeated_def tree_defs)
  have g5: "nvalue (node_at tree_repeated 5) = Some (SString ''a'')"
    by (simp add: tree_repeated_def tree_defs)
  have g6: "well_shaped tree_repeated ?q" by (simp add: shape_defs tree_repeated_def tree_defs)
  have g7: "present tree_repeated ?q ''a''" by (simp add: shape_defs tree_repeated_def tree_defs)
  have e: "escape ''a'' = ''a''" "escape ''x'' = ''x''"
    by (simp_all add: escape_def replace_char_def)
  have f: "textDocument ?r = doc_partial" "root ?r = Some 0" "pointer ?r = []"
    "annotations ?r = Some []"
    "textDocument ?q = doc_repeated" "root ?q = Some 0" "pointer ?q = []"
    "annotations ?q = Some []"
    by (simp_all add: tree_defs)
  have l1: "entries_loop tree_partial ?r ([Some 1] @ []) =
        Yield (\<lparr>textDocument = doc_partial, root = Some 0, node = Some 2, pointer = ''/x'',
                 annotations = Some []\<rparr>,
               \<lparr>textDocument = doc_partial, root = Some 0, node = Some 3, pointer = ''/x'',
                 annotations = Some []\<rparr>) Done"
    by (simp add: e JsonPointer_append_def tree_partial_def tree_defs)
  have l2: "keys_loop tree_partial ?r [Some 1] =
        Yield \<lparr>textDocument = doc_partial, root = Some 0, node = Some 2, pointer = ''/x'',
                annotations = Some []\<rparr> Done"
    by (simp add: e JsonPointer_append_def tree_partial_def tree_defs)
  have l3: "values_loop tree_partial ?r [Some 1] =
        Yield \<lparr>textDocument = doc_partial, root = Some 0, node = Some 3, pointer = ''/x'',
                annotations = Some []\<rparr> Done"
    by (simp add: e JsonPointer_append_def tree_partial_def tree_defs)
  have l4: "find (\<lambda>c. property_name tree_repeated c = Some ''a''
                 \<and> property_value tree_repeated c \<noteq> None) ([Some 1] @ []) = Some (Some 1)"
    "property_value tree_repeated (Some 1) = Some 3"
    by (simp_all add: property_name_def property_value_def tree_repeated_def tree_defs)
  have A: "entries tree_partial ?r = entries_loop tree_partial ?r ([Some 1] @ [])
      \<and> keys tree_partial ?r = gen_append (keys_loop tree_partial ?r [Some 1])
          (Yield \<lparr>textDocument = doc_partial, root = Some 0, node = Some 5,
                  pointer = ''/a'', annotations = Some []\<rparr> (keys_loop tree_partial ?r []))
      \<and> values_of tree_partial ?r = gen_append (values_loop tree_partial ?r [Some 1])
          (Yield \<lparr>textDocument = doc_partial, root = Some 0, node = None,
                  pointer = ''/a'', annotations = Some []\<rparr> (values_loop tree_partial ?r []))
      \<and> has JSON_parse tree_partial ?r ''a'' = Inr True
      \<and> step JSON_parse tree_partial ?r ''a'' =
          Inr \<lparr>textDocument = doc_partial, root = Some 0, node = None, pointer = ''/a'',
               annotations = None\<rparr>"
    using partial_property [OF h1 h2 h3 h4 h5, of JSON_parse] h6 h7
    unfolding f e by simp
  have B: "has JSON_parse tree_repeated ?q ''a'' = Inr True
      \<and> step JSON_parse tree_repeated ?q ''a'' =
          Inr \<lparr>textDocument = doc_repeated, root = Some 0, node = Some 3, pointer = ''/a'',
               annotations = Some []\<rparr>"
    using partial_property [OF g1 g2 g3 g4 g5, of JSON_parse] g6 g7 l4
    unfolding f e by auto
  from A B h1 h2 h3 h4 h5 h6 h7 g1 g2 g3 g4 g5 g6 g7 show ?thesis
    unfolding l1 l2 l3 by simp
qed



section \<open>Properties of the annotations\<close>

text \<open>
  Claim C1 as it is stated fails: \<^verbatim>\<open>annotate\<close> stores the values under the string it
  is given, and \<^verbatim>\<open>annotation\<close> reads under the identifier that string resolves to.
  With a resolver that maps \<^verbatim>\<open>title\<close> to its identifier, two calls of
  \<^verbatim>\<open>annotate("title", _)\<close> leave \<^verbatim>\<open>annotation("title")\<close> empty.
\<close>

theorem annotate_keyword_counterexample:
  "annotate (root_instance doc_ab) ''title'' (1 :: nat)
     = Inr ((root_instance doc_ab)\<lparr>annotations := Some [([], [(''title'', [1])])]\<rparr>)
   \<and> annotate ((root_instance doc_ab)\<lparr>annotations := Some [([], [(''title'', [1])])]\<rparr>)
       ''title'' (2 :: nat)
     = Inr ((root_instance doc_ab)\<lparr>annotations := Some [([], [(''title'', [2, 1])])]\<rparr>)
   \<and> annotation keyword_uri
       ((root_instance doc_ab)\<lparr>annotations := Some [([], [(''title'', [2, 1 :: nat])])]\<rparr>)
       ''title'' default_dialect = Inr []
   \<and> annotation keyword_uri
       ((root_instance doc_ab)\<lparr>annotations := Some [([], [(''title'', [2, 1 :: nat])])]\<rparr>)
       ''title'' default_dialect \<noteq> Inr [2, 1]"
  by (simp add: annotate_def annotation_def keyword_uri_def tree_defs)

text \<open>
  Claim C1, amended. Let \<open>k\<close> be the identifier the keyword \<open>kw\<close> resolves to under the
  dialect \<open>d\<close>, and let \<^verbatim>\<open>a.annotation(kw, d)\<close> return \<open>old\<close>. Then
  \<^verbatim>\<open>b = a.annotate(k, v1)\<close> and \<^verbatim>\<open>c = b.annotate(k, v2)\<close> return instances at the
  same node and pointer, \<^verbatim>\<open>c.annotation(kw, d)\<close> is \<open>v2, v1\<close> followed by \<open>old\<close>
  (so \<open>[v2, v1]\<close> when \<open>a\<close> had none), and \<^verbatim>\<open>a.annotation(kw, d)\<close> is still \<open>old\<close>.
\<close>

theorem annotate_then_annotation:
  assumes "annotation getKeywordId a kw d = Inr old" and "getKeywordId kw d = k"
  shows "\<exists>b c. annotate a k v1 = Inr b \<and> annotate b k v2 = Inr c
    \<and> annotation getKeywordId b kw d = Inr (v1 # old)
    \<and> annotation getKeywordId c kw d = Inr (v2 # v1 # old)
    \<and> annotation getKeywordId a kw d = Inr old
    \<and> textDocument c = textDocument a \<and> root c = root a \<and> node c = node a
    \<and> pointer c = pointer a"
proof -
  from assms(1) obtain anns where anns: "annotations a = Some anns"
    by (auto simp: annotation_def Let_def split: option.splits)
  define here where "here = (case map_of anns (pointer a) of None \<Rightarrow> [] | Some m \<Rightarrow> m)"
  have old: "old = (case map_of here k of None \<Rightarrow> [] | Some vs \<Rightarrow> vs)"
    using assms anns by (auto simp: annotation_def Let_def here_def split: option.splits)
  define b where "b = a\<lparr>annotations :=
      Some (AList.update (pointer a) (AList.update k (v1 # old) here) anns)\<rparr>"
  define c where "c = a\<lparr>annotations :=
      Some (AList.update (pointer a) (AList.update k (v2 # v1 # old) here) anns)\<rparr>"
  have b: "annotate a k v1 = Inr b"
    using anns old by (simp add: annotate_def Let_def b_def here_def)
  have c: "annotate b k v2 = Inr c"
    by (simp add: annotate_def Let_def b_def c_def update_conv')
  have ab: "annotation getKeywordId b kw d = Inr (v1 # old)"
    using assms(2) by (simp add: annotation_def Let_def b_def update_conv')
  have ac: "annotation getKeywordId c kw d = Inr (v2 # v1 # old)"
    using assms(2) by (simp add: annotation_def Let_def c_def update_conv')
  show ?thesis
    using b c ab ac assms(1) by (simp add: c_def)
qed

theorem annotate_then_annotation_witness:
  "annotation keyword_uri (root_instance doc_ab) ''title'' default_dialect = Inr ([] :: nat list)
   \<and> keyword_uri ''title'' default_dialect = ''https://json-schema.org/keyword/title''
   \<and> (\<exists>b c. annotate (root_instance doc_ab) ''https://json-schema.org/keyword/title'' (1 :: nat)
               = Inr b
          \<and> annotate b ''https://json-schema.org/keyword/title'' 2 = Inr c
          \<and> annotation keyword_uri c ''title'' default_dialect = Inr [2, 1])"
proof -
  have h1: "annotation keyword_uri (root_instance doc_ab) ''title'' default_dialect
      = Inr ([] :: nat list)"
    by (simp add: annotation_def tree_defs)
  have h2: "keyword_uri ''title'' default_dialect = ''https://json-schema.org/keyword/title''"
    by (simp add: keyword_uri_def)
  from annotate_then_annotation [OF h1 h2, of 1 2] h1 h2 show ?thesis by blast
qed


section \<open>Properties of resolving a reference\<close>

lemma decodeURI_error: "decodeURI s = Inl e \<Longrightarrow> e = URIError"
proof (induction s arbitrary: e rule: decodeURI.induct)
  case 1
  then show ?case by simp
next
  case (2 c s)
  show ?case
  proof (cases "c = CHR ''%''")
    case False
    with "2.prems" "2.IH"(1) show ?thesis by (auto split: sum.splits)
  next
    case True
    show ?thesis
    proof (cases "percent_byte (c # s)")
      case None
      with True "2.prems" show ?thesis by simp
    next
      case (Some b)
      consider "leading_ones b = 0" | "leading_ones b = 1 \<or> leading_ones b > 4"
        | "leading_ones b \<noteq> 0" "\<not> (leading_ones b = 1 \<or> leading_ones b > 4)"
        by blast
      then show ?thesis
      proof cases
        case 1
        with True Some "2.IH"(2) "2.prems" show ?thesis
          by (auto split: sum.splits)
      next
        case 2
        with True Some "2.prems" show ?thesis by (auto split: sum.splits)
      next
        case 3
        show ?thesis
        proof (cases "continuation_octets (leading_ones b - 1) (drop 2 s)")
          case None
          with True Some 3 "2.prems" show ?thesis by simp
        next
          case bs: (Some bs)
          show ?thesis
          proof (cases "valid_utf8 (b # bs)")
            case False
            with True Some 3 bs "2.prems" show ?thesis by simp
          next
            case v: True
            with True Some 3 bs "2.IH"(3) "2.prems" show ?thesis
              by (auto split: sum.splits)
          qed
        qed
      qed
    qed
  qed
qed

lemma find_property_error: "find_property h segment cs = Inl e \<Longrightarrow> e = TypeError"
  by (induction cs) (auto split: option.splits if_splits)

lemma location_loop_error: "location_loop h n path = Inl e \<Longrightarrow> e = TypeError"
  by (induction path arbitrary: n)
    (auto split: option.splits if_splits sum.splits dest: find_property_error)

lemma findNodeAtLocation_error: "findNodeAtLocation h r path = Inl e \<Longrightarrow> e = TypeError"
  by (auto simp: findNodeAtLocation_def split: option.splits dest: location_loop_error)

lemma get_ResolutionError:
  "(get h this uri = Inl (ResolutionError u)) = ((uri = [] \<or> hd uri \<noteq> CHR ''#'') \<and> u = uri)"
  by (cases uri)
    (auto simp: get_def pointerSegments_def split: sum.splits if_splits
      dest: decodeURI_error findNodeAtLocation_error)

lemma find_property_ok:
  assumes "list_all (entry_ok h) cs"
  shows "find_property h segment cs = Inr None
    \<or> (\<exists>a. find_property h segment cs = Inr (Some (Some a)))"
  using assms
proof (induction cs)
  case Nil
  show ?case by simp
next
  case (Cons c cs)
  from Cons.prems obtain p where p: "c = Some p"
    by (auto simp: entry_ok_def split: option.splits)
  show ?case
  proof (cases "nchildren (node_at h p)")
    case None
    with Cons p show ?thesis by simp
  next
    case (Some kids)
    with Cons.prems p obtain k where k: "child kids 0 = Some k"
        and two: "length kids = 2 \<longrightarrow> child kids 1 \<noteq> None"
      by (auto simp: entry_ok_def)
    show ?thesis
      using Cons p Some k two by auto
  qed
qed

lemma location_loop_ok:
  assumes "wf_heap h"
  shows "\<exists>n. location_loop h (Some a) path = Inr n"
proof (induction path arbitrary: a)
  case Nil
  show ?case by simp
next
  case (Cons segment path)
  show ?case
  proof (cases "ntype (node_at h a) = TObject")
    case False
    then show ?thesis by simp
  next
    case True
    show ?thesis
    proof (cases "nchildren (node_at h a)")
      case None
      with True show ?thesis by simp
    next
      case (Some cs)
      from assms have "node_ok h (node_at h a)" by (simp add: wf_heap_def)
      with True Some have "list_all (entry_ok h) cs" by (simp add: node_ok_def)
      from find_property_ok [OF this, of segment] show ?thesis
        using True Some Cons.IH by auto
    qed
  qed
qed

lemma findNodeAtLocation_ok:
  "wf_heap h \<Longrightarrow> \<exists>n. findNodeAtLocation h r path = Inr n"
  by (cases r) (simp_all add: findNodeAtLocation_def location_loop_ok)

text \<open>
  Claim C7, amended. \<^verbatim>\<open>get(uri)\<close> raises the resolution error exactly when \<open>uri\<close>
  does not begin with \<^verbatim>\<open>#\<close>. On a store of the parser's shape, for every
  \<^verbatim>\<open>#\<close> followed by a fragment that \<^verbatim>\<open>decodeURI\<close> decodes to a pointer \<open>p\<close>
  that is empty or begins with \<^verbatim>\<open>/\<close>, \<^verbatim>\<open>get\<close> raises nothing and returns the
  instance with the pointer \<open>p\<close> at the node \<^verbatim>\<open>findNodeAtLocation\<close> finds, which is
  no node when the pointer addresses none.
\<close>

theorem get_raises:
  "(get h this uri = Inl (ResolutionError uri)) = (uri = [] \<or> hd uri \<noteq> CHR ''#'')
   \<and> (\<forall>u. get h this uri \<noteq> Inl (ResolutionError u) \<or> (uri = [] \<or> hd uri \<noteq> CHR ''#''))
   \<and> (wf_heap h \<and> decodeURI fragment = Inr p \<and> (p = [] \<or> hd p = CHR ''/'') \<longrightarrow>
        (\<exists>path n. pointerSegments p = Inr path
          \<and> findNodeAtLocation h (root this) path = Inr n
          \<and> get h this (CHR ''#'' # fragment) =
              Inr \<lparr>textDocument = textDocument this, root = root this, node = n, pointer = p,
                   annotations = annotations this\<rparr>))"
proof -
  have A: "(get h this uri = Inl (ResolutionError uri)) = (uri = [] \<or> hd uri \<noteq> CHR ''#'')"
    by (simp add: get_ResolutionError)
  have B: "\<forall>u. get h this uri \<noteq> Inl (ResolutionError u) \<or> (uri = [] \<or> hd uri \<noteq> CHR ''#'')"
    by (auto simp: get_ResolutionError)
  have C: "\<exists>path n. pointerSegments p = Inr path
          \<and> findNodeAtLocation h (root this) path = Inr n
          \<and> get h this (CHR ''#'' # fragment) =
              Inr \<lparr>textDocument = textDocument this, root = root this, node = n, pointer = p,
                   annotations = annotations this\<rparr>"
    if "wf_heap h" "decodeURI fragment = Inr p" "p = [] \<or> hd p = CHR ''/''"
  proof -
    from that(3) obtain path where path: "pointerSegments p = Inr path"
      by (auto simp: pointerSegments_def)
    from findNodeAtLocation_ok [OF that(1)] obtain n
      where n: "findNodeAtLocation h (root this) path = Inr n" by blast
    from path n that(2) show ?thesis by (simp add: get_def)
  qed
  from A B C show ?thesis by blast
qed

lemma wf_heap_store_of: "wf_heap (store_of ns) = list_all (node_ok (store_of ns)) ns"
proof -
  have u: "node_ok (store_of ns) unused" by (simp add: node_ok_def unused_def)
  show ?thesis
    unfolding wf_heap_def list_all_length
    using u by (auto simp: store_of_def)
qed

text \<open>
  Claim C7 as it is stated fails: \<^verbatim>\<open>/%\<close> is a pointer that \<^verbatim>\<open>pointerSegments\<close>
  accepts, and \<^verbatim>\<open>get("#/%")\<close> raises, because \<^verbatim>\<open>decodeURI\<close> rejects the fragment.
\<close>

theorem get_percent_counterexample:
  "get tree_ab (root_instance doc_ab :: nat JsoncInstance) ''#/%'' = Inl URIError
   \<and> pointerSegments ''/%'' = Inr [''%'']"
  by (simp add: get_def segments_of_one)

theorem get_raises_witness:
  "wf_heap tree_ab \<and> decodeURI ''/a/c'' = Inr ''/a/c'' \<and> hd ''/a/c'' = CHR ''/''
   \<and> pointerSegments ''/a/c'' = Inr [''a'', ''c'']
   \<and> findNodeAtLocation tree_ab (Some 0) [''a'', ''c''] = Inr None
   \<and> get tree_ab (root_instance doc_ab :: nat JsoncInstance) ''#/a/c'' =
        Inr \<lparr>textDocument = doc_ab, root = Some 0, node = None, pointer = ''/a/c'',
             annotations = Some []\<rparr>
   \<and> get tree_ab (root_instance doc_ab :: nat JsoncInstance) ''/a/c''
        = Inl (ResolutionError ''/a/c'')"
proof -
  have w: "wf_heap tree_ab"
    unfolding tree_ab_def wf_heap_store_of
    by (simp add: node_ok_def entry_ok_def tree_defs)
  have d: "decodeURI ''/a/c'' = Inr ''/a/c''" by simp
  have s: "pointerSegments ''/a/c'' = Inr [''a'', ''c'']"
    using segments_of_plain [of "[''a'', ''c'']"] by simp
  have f: "findNodeAtLocation tree_ab (Some 0) [''a'', ''c''] = Inr None"
    by (simp add: findNodeAtLocation_def tree_ab_def tree_defs)
  have r: "root (root_instance doc_ab :: nat JsoncInstance) = Some 0"
    "textDocument (root_instance doc_ab :: nat JsoncInstance) = doc_ab"
    "annotations (root_instance doc_ab :: nat JsoncInstance) = Some []"
    by (simp_all add: tree_defs)
  show ?thesis
    using get_raises [of tree_ab "root_instance doc_ab :: nat JsoncInstance" "''/a/c''" "''/a/c''" "''/a/c''"]
      w d s f
    unfolding r
    by simp
qed


section \<open>Properties of embedding\<close>

lemma asEmbedded_at_a:
  "asEmbedded tree_ab
     \<lparr>textDocument = doc_ab, root = Some 0, node = Some 3, pointer = ''/a'', annotations = anns\<rparr>
   = Inr (\<lparr>textDocument = doc_ab, root = Some 3, node = Some 3, pointer = [],
           annotations = Some []\<rparr>, store_after_embedding)"
  by (simp add: asEmbedded_def store_after_embedding_def tree_ab_def tree_defs alloc_def
      set_children_def js_array_set_def)

lemma store_after_embedding_nodes:
  "node_at store_after_embedding 0 = composite TObject 0 15 [1] None"
  "node_at store_after_embedding 1 =
     \<lparr>ntype = TProperty, noffset = 1, nlength = 13, nvalue = None,
      nchildren = Some [Some 2, Some 7], nparent = Some 0\<rparr>"
  "node_at store_after_embedding (Suc 0) =
     \<lparr>ntype = TProperty, noffset = 1, nlength = 13, nvalue = None,
      nchildren = Some [Some 2, Some 7], nparent = Some 0\<rparr>"
  "node_at store_after_embedding 2 = literal TString 1 3 (SString ''a'') (Some 1)"
  "node_at store_after_embedding 3 = composite TObject 6 8 [4] (Some 1)"
  "node_at store_after_embedding 4 = composite TProperty 7 6 [5, 6] (Some 3)"
  "node_at store_after_embedding 5 = literal TString 7 3 (SString ''b'') (Some 4)"
  "node_at store_after_embedding 6 = literal TNumber 12 1 (SNumber 1) (Some 4)"
  "node_at store_after_embedding 7 =
     \<lparr>ntype = TBoolean, noffset = 6, nlength = 0, nvalue = None, nchildren = None,
      nparent = None\<rparr>"
  by (simp_all add: asEmbedded_def store_after_embedding_def tree_ab_def tree_defs alloc_def
      set_children_def js_array_set_def)

lemma slice_inner: \<open>js_slice doc_ab 6 14 = ''{"b": 1}''\<close>
  by (simp add: js_slice_def js_index_def doc_ab_def)

lemma parse_inner: \<open>JSON_parse ''{"b": 1}'' = Inr (JObject [(''b'', JNumber 1)])\<close>
  by code_simp

lemma parse_empty: "JSON_parse [] = Inl SyntaxError"
  by (simp add: JSON_parse_def)

text \<open>
  Claim C4. In the tree of \<^verbatim>\<open>{"a": {"b": 1}}\<close>, whatever annotations the instances
  carry: \<^verbatim>\<open>asEmbedded\<close> on the instance at \<^verbatim>\<open>/a\<close> (node 3) returns an instance
  whose root and node are node 3, whose pointer is empty, whose annotations are the empty
  object and whose \<^verbatim>\<open>value()\<close> is \<^verbatim>\<open>{"b": 1}\<close>; and the second child of the
  property that is the parent of node 3 is afterwards a new node of length 0 at the
  offset of node 3, which is what \<^verbatim>\<open>step("a")\<close> from the original root then reaches,
  and whose \<^verbatim>\<open>value()\<close> is not \<^verbatim>\<open>{"b": 1}\<close>.
\<close>

theorem asEmbedded_example:
  "step JSON_parse tree_ab
     \<lparr>textDocument = doc_ab, root = Some 0, node = Some 0, pointer = [],
      annotations = Some anns\<rparr> ''a''
   = Inr \<lparr>textDocument = doc_ab, root = Some 0, node = Some 3, pointer = ''/a'',
          annotations = Some anns\<rparr>
   \<and> asEmbedded tree_ab
       \<lparr>textDocument = doc_ab, root = Some 0, node = Some 3, pointer = ''/a'',
        annotations = Some anns\<rparr>
     = Inr (\<lparr>textDocument = doc_ab, root = Some 3, node = Some 3, pointer = [],
             annotations = Some []\<rparr>, store_after_embedding)
   \<and> value_of JSON_parse store_after_embedding
       \<lparr>textDocument = doc_ab, root = Some 3, node = Some 3, pointer = [],
        annotations = Some []\<rparr>
     = Inr (Some (JObject [(''b'', JNumber 1)]))
   \<and> nparent (node_at tree_ab 3) = Some 1
   \<and> nchildren (node_at tree_ab 1) = Some [Some 2, Some 3]
   \<and> nchildren (node_at store_after_embedding 1) = Some [Some 2, Some 7]
   \<and> node_at store_after_embedding 7
     = \<lparr>ntype = TBoolean, noffset = noffset (node_at tree_ab 3), nlength = 0, nvalue = None,
        nchildren = None, nparent = None\<rparr>
   \<and> step JSON_parse store_after_embedding
       \<lparr>textDocument = doc_ab, root = Some 0, node = Some 0, pointer = [],
        annotations = Some anns\<rparr> ''a''
     = Inr \<lparr>textDocument = doc_ab, root = Some 0, node = Some 7, pointer = ''/a'',
            annotations = Some anns\<rparr>
   \<and> value_of JSON_parse store_after_embedding
       \<lparr>textDocument = doc_ab, root = Some 0, node = Some 7, pointer = ''/a'',
        annotations = Some anns\<rparr>
     \<noteq> Inr (Some (JObject [(''b'', JNumber 1)]))"
proof -
  have e: "escape ''a'' = ''a''" by (simp add: escape_plain)
  have 1: "step JSON_parse tree_ab
     \<lparr>textDocument = doc_ab, root = Some 0, node = Some 0, pointer = [],
      annotations = Some anns\<rparr> ''a''
   = Inr \<lparr>textDocument = doc_ab, root = Some 0, node = Some 3, pointer = ''/a'',
          annotations = Some anns\<rparr>"
    by (simp add: step_def entries_def typeOf_def value_is_def value_of_def
        JsonPointer_append_def e tree_ab_def tree_defs)
  have 3: "value_of JSON_parse store_after_embedding
       \<lparr>textDocument = doc_ab, root = Some 3, node = Some 3, pointer = [],
        annotations = Some []\<rparr>
     = Inr (Some (JObject [(''b'', JNumber 1)]))"
    by (simp add: value_of_def store_after_embedding_nodes composite_def slice_inner parse_inner)
  have 4: "nparent (node_at tree_ab 3) = Some 1"
    "nchildren (node_at tree_ab 1) = Some [Some 2, Some 3]"
    "noffset (node_at tree_ab 3) = 6"
    by (simp_all add: tree_ab_def tree_defs)
  have 8: "step JSON_parse store_after_embedding
       \<lparr>textDocument = doc_ab, root = Some 0, node = Some 0, pointer = [],
        annotations = Some anns\<rparr> ''a''
     = Inr \<lparr>textDocument = doc_ab, root = Some 0, node = Some 7, pointer = ''/a'',
            annotations = Some anns\<rparr>"
    by (simp add: step_def entries_def typeOf_def value_is_def value_of_def
        JsonPointer_append_def e store_after_embedding_nodes composite_def literal_def child_def)
  have 9: "value_of JSON_parse store_after_embedding
       \<lparr>textDocument = doc_ab, root = Some 0, node = Some 7, pointer = ''/a'',
        annotations = Some anns\<rparr> = Inl SyntaxError"
    by (simp add: value_of_def store_after_embedding_nodes js_slice_def js_index_def
        parse_empty doc_ab_def)
  show ?thesis
    using 1 asEmbedded_at_a [of "Some anns"] 3 4 8 9
    by (simp add: store_after_embedding_nodes)
qed


lemma get_embedded_b:
  "get store_after_embedding
     \<lparr>textDocument = doc_ab, root = Some 3, node = Some 3, pointer = [], annotations = anns\<rparr>
     ''#/b''
   = Inr \<lparr>textDocument = doc_ab, root = Some 3, node = Some 6, pointer = ''/b'',
          annotations = anns\<rparr>"
  by (simp add: get_def segments_of_one findNodeAtLocation_def
      store_after_embedding_nodes composite_def literal_def child_def)

text \<open>
  Claim C3 as it is stated fails: on the instance \<^verbatim>\<open>asEmbedded\<close> returns for
  \<^verbatim>\<open>/a\<close> of \<^verbatim>\<open>{"a": {"b": 1}}\<close>, \<^verbatim>\<open>get("#/b")\<close> returns the instance at node 6,
  which is \<^verbatim>\<open>/a/b\<close> of the whole document; \<^verbatim>\<open>/b\<close> of the whole document is no
  node, before the embedding and after it.
\<close>

theorem get_embedded_counterexample:
  "asEmbedded tree_ab
     \<lparr>textDocument = doc_ab, root = Some 0, node = Some 3, pointer = ''/a'',
      annotations = Some ([] :: nat annotations)\<rparr>
   = Inr (\<lparr>textDocument = doc_ab, root = Some 3, node = Some 3, pointer = [],
           annotations = Some []\<rparr>, store_after_embedding)
   \<and> get store_after_embedding
       \<lparr>textDocument = doc_ab, root = Some 3, node = Some 3, pointer = [],
        annotations = Some ([] :: nat annotations)\<rparr> ''#/b''
     = Inr \<lparr>textDocument = doc_ab, root = Some 3, node = Some 6, pointer = ''/b'',
            annotations = Some []\<rparr>
   \<and> findNodeAtLocation tree_ab (Some 0) [''b''] = Inr None
   \<and> findNodeAtLocation store_after_embedding (Some 0) [''b''] = Inr None
   \<and> findNodeAtLocation tree_ab (Some 0) [''a'', ''b''] = Inr (Some 6)"
proof -
  have 1: "findNodeAtLocation tree_ab (Some 0) [''b''] = Inr None"
    "findNodeAtLocation tree_ab (Some 0) [''a'', ''b''] = Inr (Some 6)"
    by (simp_all add: findNodeAtLocation_def tree_ab_def tree_defs)
  have 2: "findNodeAtLocation store_after_embedding (Some 0) [''b''] = Inr None"
    by (simp add: findNodeAtLocation_def store_after_embedding_nodes composite_def literal_def
        child_def)
  show ?thesis
    using 1 2 by (simp add: asEmbedded_at_a get_embedded_b)
qed

lemma get_Inr:
  assumes "get h this uri = Inr r"
  shows "root r = root this \<and> textDocument r = textDocument this
    \<and> annotations r = annotations this
    \<and> (\<exists>fragment path. uri = CHR ''#'' # fragment \<and> decodeURI fragment = Inr (pointer r)
          \<and> pointerSegments (pointer r) = Inr path
          \<and> findNodeAtLocation h (root this) path = Inr (node r))"
  using assms
  by (cases uri) (auto simp: get_def split: if_splits sum.splits)

lemma asEmbedded_Inr:
  assumes "asEmbedded h this = Inr (e, h')"
  shows "root e = node this \<and> node e = node this \<and> pointer e = [] \<and> annotations e = Some []
    \<and> textDocument e = textDocument this \<and> node this \<noteq> None"
  using assms
  by (auto simp: asEmbedded_def Let_def alloc_def split: option.splits prod.splits)

text \<open>
  Claim C3, amended. When \<^verbatim>\<open>get(uri)\<close> returns, \<open>uri\<close> is \<^verbatim>\<open>#\<close> followed by a
  fragment, the pointer of the result is the decoded fragment, and its node is what
  \<^verbatim>\<open>findNodeAtLocation\<close> finds for the segments of that pointer from the root of the
  instance \<^verbatim>\<open>get\<close> is called on, which stays the root of the result. On an instance
  that \<^verbatim>\<open>asEmbedded\<close> returned, that root is the embedded node: the pointer is resolved
  from there, not from the root of the whole document.
\<close>

theorem get_resolves_in_view:
  "(get h this uri = Inr r \<longrightarrow>
      root r = root this
      \<and> (\<exists>fragment path. uri = CHR ''#'' # fragment \<and> decodeURI fragment = Inr (pointer r)
            \<and> pointerSegments (pointer r) = Inr path
            \<and> findNodeAtLocation h (root this) path = Inr (node r)))
   \<and> (asEmbedded h0 outer = Inr (this, h) \<and> get h this uri = Inr r \<longrightarrow>
      root this = node outer
      \<and> (\<exists>fragment path. uri = CHR ''#'' # fragment \<and> decodeURI fragment = Inr (pointer r)
            \<and> pointerSegments (pointer r) = Inr path
            \<and> findNodeAtLocation h (node outer) path = Inr (node r)))"
proof -
  have A: "root r = root this
      \<and> (\<exists>fragment path. uri = CHR ''#'' # fragment \<and> decodeURI fragment = Inr (pointer r)
            \<and> pointerSegments (pointer r) = Inr path
            \<and> findNodeAtLocation h (root this) path = Inr (node r))"
    if "get h this uri = Inr r"
    using get_Inr [OF that] by blast
  have B: "root this = node outer" if "asEmbedded h0 outer = Inr (this, h)"
    using asEmbedded_Inr [OF that] by simp
  show ?thesis
    using A B by metis
qed

theorem get_resolves_in_view_witness:
  "asEmbedded tree_ab
     \<lparr>textDocument = doc_ab, root = Some 0, node = Some 3, pointer = ''/a'',
      annotations = Some ([] :: nat annotations)\<rparr>
   = Inr (\<lparr>textDocument = doc_ab, root = Some 3, node = Some 3, pointer = [],
           annotations = Some []\<rparr>, store_after_embedding)
   \<and> get store_after_embedding
       \<lparr>textDocument = doc_ab, root = Some 3, node = Some 3, pointer = [],
        annotations = Some ([] :: nat annotations)\<rparr> ''#/b''
     = Inr \<lparr>textDocument = doc_ab, root = Some 3, node = Some 6, pointer = ''/b'',
            annotations = Some []\<rparr>
   \<and> (\<exists>fragment path. ''#/b'' = CHR ''#'' # fragment \<and> decodeURI fragment = Inr ''/b''
         \<and> pointerSegments ''/b'' = Inr path
         \<and> findNodeAtLocation store_after_embedding (Some 3) path = Inr (Some 6))"
proof -
  let ?outer = "\<lparr>textDocument = doc_ab, root = Some 0, node = Some 3, pointer = ''/a'',
      annotations = Some ([] :: nat annotations)\<rparr>"
  let ?e = "\<lparr>textDocument = doc_ab, root = Some 3, node = Some 3, pointer = [],
      annotations = Some ([] :: nat annotations)\<rparr>"
  let ?r = "\<lparr>textDocument = doc_ab, root = Some 3, node = Some 6, pointer = ''/b'',
      annotations = Some ([] :: nat annotations)\<rparr>"
  have 1: "asEmbedded tree_ab ?outer = Inr (?e, store_after_embedding)"
    by (rule asEmbedded_at_a)
  have 2: "get store_after_embedding ?e ''#/b'' = Inr ?r"
    by (rule get_embedded_b)
  from get_resolves_in_view [of store_after_embedding ?e "''#/b''" ?r tree_ab ?outer] 1 2
  show ?thesis by simp
qed

section \<open>Where the code departs from its description\<close>

text \<open>
  What holds of claim C5: the instances that \<^verbatim>\<open>entries\<close>, \<^verbatim>\<open>keys\<close>,
  \<^verbatim>\<open>values\<close>, \<^verbatim>\<open>iter\<close>, \<^verbatim>\<open>get\<close>, \<^verbatim>\<open>parent\<close> and
  \<^verbatim>\<open>getInstanceAtPosition\<close> return carry the annotations of the instance they are
  called on, and so does the instance \<^verbatim>\<open>step\<close> returns for a property it finds. The
  instance \<^verbatim>\<open>step\<close> returns for a property it does not find carries none.
\<close>

lemma entries_loop_annotations:
  "gen_all (\<lambda>(k, v). annotations k = annotations this \<and> annotations v = annotations this
      \<and> node v \<noteq> None)
     (entries_loop h this cs)"
  by (induction cs) (auto split: option.splits sum.splits)

lemma keys_loop_annotations:
  "gen_all (\<lambda>x. annotations x = annotations this) (keys_loop h this cs)"
  by (induction cs) (auto split: option.splits sum.splits)

lemma values_loop_annotations:
  "gen_all (\<lambda>x. annotations x = annotations this) (values_loop h this cs)"
  by (induction cs) (auto split: option.splits sum.splits)

lemma iter_loop_annotations:
  "gen_all (\<lambda>x. annotations x = annotations this) (iter_loop this cs i)"
  by (induction cs arbitrary: i) auto

lemma find_gen_all:
  "gen_all P g \<Longrightarrow> find_gen fn g = Inr (Some x) \<Longrightarrow> P x"
  by (induction g) (auto split: sum.splits if_splits)

lemma navigation_annotations:
  "gen_all (\<lambda>(k, v). annotations k = annotations this \<and> annotations v = annotations this
      \<and> node v \<noteq> None) (entries h this)"
  "gen_all (\<lambda>x. annotations x = annotations this) (keys h this)"
  "gen_all (\<lambda>x. annotations x = annotations this) (values_of h this)"
  "gen_all (\<lambda>x. annotations x = annotations this) (iter h this)"
  "get h this uri = Inr r \<Longrightarrow> annotations r = annotations this"
  "parent h this = Inr r \<Longrightarrow> annotations r = annotations this"
  "annotations (getInstanceAtPosition offsetAt findNodeAtOffset getNodePath h this position)
     = annotations this"
  "step parse h this key = Inr r \<Longrightarrow> node r \<noteq> None \<Longrightarrow> annotations r = annotations this"
  "step parse h this key = Inr r \<Longrightarrow> node r = None \<Longrightarrow> annotations r = None"
proof -
  show E: "gen_all (\<lambda>(k, v). annotations k = annotations this \<and> annotations v = annotations this
      \<and> node v \<noteq> None) (entries h this)"
    using entries_loop_annotations [of this h]
    by (simp add: entries_def split: option.splits)
  show "gen_all (\<lambda>x. annotations x = annotations this) (keys h this)"
    by (simp add: keys_def keys_loop_annotations split: option.splits)
  show "gen_all (\<lambda>x. annotations x = annotations this) (values_of h this)"
    by (simp add: values_of_def values_loop_annotations split: option.splits)
  show "gen_all (\<lambda>x. annotations x = annotations this) (iter h this)"
    by (simp add: iter_def iter_loop_annotations split: option.splits)
  show "get h this uri = Inr r \<Longrightarrow> annotations r = annotations this"
    using get_Inr by blast
  show "parent h this = Inr r \<Longrightarrow> annotations r = annotations this"
    by (auto simp: parent_def split: option.splits)
  show "annotations (getInstanceAtPosition offsetAt findNodeAtOffset getNodePath h this position)
     = annotations this"
    by (simp add: getInstanceAtPosition_def split: option.splits)
  show "annotations r = annotations this" if "step parse h this key = Inr r" "node r \<noteq> None"
  proof (cases "find_gen (\<lambda>(k, v). value_is parse h key k) (entries h this)")
    case (Inl e)
    with that show ?thesis by (simp add: step_def)
  next
    case (Inr found)
    show ?thesis
    proof (cases found)
      case None
      with Inr that show ?thesis by (auto simp: step_def)
    next
      case (Some pair)
      with Inr find_gen_all [OF E] have "annotations (snd pair) = annotations this"
        by (fastforce simp: case_prod_beta)
      with Inr Some that show ?thesis by (auto simp: step_def)
    qed
  qed
  show "annotations r = None" if "step parse h this key = Inr r" "node r = None"
  proof (cases "find_gen (\<lambda>(k, v). value_is parse h key k) (entries h this)")
    case (Inl e)
    with that show ?thesis by (simp add: step_def)
  next
    case (Inr found)
    show ?thesis
    proof (cases found)
      case None
      with Inr that show ?thesis by (auto simp: step_def)
    next
      case (Some pair)
      with Inr find_gen_all [OF E] have "node (snd pair) \<noteq> None"
        by (fastforce simp: case_prod_beta)
      with Inr Some that show ?thesis by (auto simp: step_def)
    qed
  qed
qed

text \<open>
  Claim C5 fails on the code: from the root of \<^verbatim>\<open>{"a": {"b": 1}}\<close> with any
  annotations \<open>anns\<close>, \<^verbatim>\<open>step("x")\<close> returns an instance whose \<^verbatim>\<open>annotations\<close> is
  \<^verbatim>\<open>undefined\<close>, on which \<^verbatim>\<open>annotation\<close> and \<^verbatim>\<open>annotate\<close> throw, while
  \<^verbatim>\<open>get("#/x")\<close> returns the instance at the same place with \<open>anns\<close>.
\<close>

theorem step_miss_loses_annotations:
  "step JSON_parse tree_ab
     \<lparr>textDocument = doc_ab, root = Some 0, node = Some 0, pointer = [],
      annotations = Some anns\<rparr> ''x''
   = Inr \<lparr>textDocument = doc_ab, root = Some 0, node = None, pointer = ''/x'',
          annotations = None\<rparr>
   \<and> annotation getKeywordId
       \<lparr>textDocument = doc_ab, root = Some 0, node = None, pointer = ''/x'',
        annotations = None\<rparr> keyword dialectId = Inl TypeError
   \<and> annotate
       \<lparr>textDocument = doc_ab, root = Some 0, node = None, pointer = ''/x'',
        annotations = None\<rparr> keyword v = Inl TypeError
   \<and> get tree_ab
       \<lparr>textDocument = doc_ab, root = Some 0, node = Some 0, pointer = [],
        annotations = Some anns\<rparr> ''#/x''
     = Inr \<lparr>textDocument = doc_ab, root = Some 0, node = None, pointer = ''/x'',
            annotations = Some anns\<rparr>"
proof -
  have e: "escape ''x'' = ''x''" by (simp add: escape_plain)
  have 1: "step JSON_parse tree_ab
     \<lparr>textDocument = doc_ab, root = Some 0, node = Some 0, pointer = [],
      annotations = Some anns\<rparr> ''x''
   = Inr \<lparr>textDocument = doc_ab, root = Some 0, node = None, pointer = ''/x'',
          annotations = None\<rparr>"
    by (simp add: step_def entries_def typeOf_def value_is_def value_of_def
        JsonPointer_append_def e tree_ab_def tree_defs)
  have 2: "get tree_ab
       \<lparr>textDocument = doc_ab, root = Some 0, node = Some 0, pointer = [],
        annotations = Some anns\<rparr> ''#/x''
     = Inr \<lparr>textDocument = doc_ab, root = Some 0, node = None, pointer = ''/x'',
            annotations = Some anns\<rparr>"
    by (simp add: get_def segments_of_one findNodeAtLocation_def tree_ab_def tree_defs)
  show ?thesis
    using 1 2 by (simp add: annotation_def annotate_def)
qed

lemma slice_array: \<open>js_slice doc_trailing 6 10 = ''[1,]''\<close>
  by (simp add: js_slice_def js_index_def doc_trailing_def)

lemma parse_trailing: \<open>JSON_parse ''[1,]'' = Inl SyntaxError\<close>
  by code_simp

lemma parse_doc_trailing: "JSON_parse doc_trailing = Inl SyntaxError"
  unfolding doc_trailing_def by code_simp

lemma parse_doc_twice: "JSON_parse doc_twice = Inr (JObject [(''a'', JNumber 2)])"
  unfolding doc_twice_def by code_simp

text \<open>
  Claim C2 fails on the code. The tree of \<^verbatim>\<open>{"a": [1,]}\<close> has the key \<^verbatim>\<open>a\<close>, and
  \<^verbatim>\<open>value()\<close> throws on the instance \<^verbatim>\<open>step("a")\<close> returns and on the root, since
  the source text of neither is JSON. In the tree of \<^verbatim>\<open>{"a": 1, "a": 2}\<close>,
  \<^verbatim>\<open>step("a").value()\<close> is 1 and the property \<^verbatim>\<open>a\<close> of \<^verbatim>\<open>value()\<close> is 2.
\<close>

theorem value_of_trailing_comma:
  "step JSON_parse tree_trailing (root_instance doc_trailing :: nat JsoncInstance) ''a''
   = Inr \<lparr>textDocument = doc_trailing, root = Some 0, node = Some 3, pointer = ''/a'',
          annotations = Some []\<rparr>
   \<and> typeOf tree_trailing
       (\<lparr>textDocument = doc_trailing, root = Some 0, node = Some 3, pointer = ''/a'',
         annotations = Some []\<rparr> :: nat JsoncInstance) = ''array''
   \<and> value_of JSON_parse tree_trailing
       (\<lparr>textDocument = doc_trailing, root = Some 0, node = Some 3, pointer = ''/a'',
         annotations = Some []\<rparr> :: nat JsoncInstance) = Inl SyntaxError
   \<and> value_of JSON_parse tree_trailing (root_instance doc_trailing :: nat JsoncInstance)
     = Inl SyntaxError
   \<and> step JSON_parse tree_twice (root_instance doc_twice :: nat JsoncInstance) ''a''
     = Inr \<lparr>textDocument = doc_twice, root = Some 0, node = Some 3, pointer = ''/a'',
            annotations = Some []\<rparr>
   \<and> value_of JSON_parse tree_twice
       (\<lparr>textDocument = doc_twice, root = Some 0, node = Some 3, pointer = ''/a'',
         annotations = Some []\<rparr> :: nat JsoncInstance) = Inr (Some (JNumber 1))
   \<and> value_of JSON_parse tree_twice (root_instance doc_twice :: nat JsoncInstance)
     = Inr (Some (JObject [(''a'', JNumber 2)]))"
proof -
  have e: "escape ''a'' = ''a''" by (simp add: escape_plain)
  have 1: "step JSON_parse tree_trailing (root_instance doc_trailing :: nat JsoncInstance) ''a''
     = Inr \<lparr>textDocument = doc_trailing, root = Some 0, node = Some 3, pointer = ''/a'',
          annotations = Some []\<rparr>"
    by (simp add: step_def entries_def typeOf_def value_is_def value_of_def
        JsonPointer_append_def e tree_trailing_def tree_defs)
  have 2: "typeOf tree_trailing
       (\<lparr>textDocument = doc_trailing, root = Some 0, node = Some 3, pointer = ''/a'',
         annotations = Some []\<rparr> :: nat JsoncInstance) = ''array''"
    by (simp add: typeOf_def tree_trailing_def tree_defs)
  have 3: "value_of JSON_parse tree_trailing
       (\<lparr>textDocument = doc_trailing, root = Some 0, node = Some 3, pointer = ''/a'',
         annotations = Some []\<rparr> :: nat JsoncInstance) = Inl SyntaxError"
    by (simp add: value_of_def tree_trailing_def tree_defs slice_array parse_trailing)
  have sl: "js_slice doc_trailing 0 11 = doc_trailing" "js_slice doc_twice 0 16 = doc_twice"
    by (simp_all add: js_slice_def js_index_def doc_trailing_def doc_twice_def)
  have 4: "value_of JSON_parse tree_trailing (root_instance doc_trailing :: nat JsoncInstance)
     = Inl SyntaxError"
    by (simp add: value_of_def tree_trailing_def tree_defs sl parse_doc_trailing)
  have 5: "step JSON_parse tree_twice (root_instance doc_twice :: nat JsoncInstance) ''a''
     = Inr \<lparr>textDocument = doc_twice, root = Some 0, node = Some 3, pointer = ''/a'',
            annotations = Some []\<rparr>"
    by (simp add: step_def entries_def typeOf_def value_is_def value_of_def
        JsonPointer_append_def e tree_twice_def tree_defs)
  have 6: "value_of JSON_parse tree_twice
       (\<lparr>textDocument = doc_twice, root = Some 0, node = Some 3, pointer = ''/a'',
         annotations = Some []\<rparr> :: nat JsoncInstance) = Inr (Some (JNumber 1))"
    by (simp add: value_of_def tree_twice_def tree_defs)
  have 7: "value_of JSON_parse tree_twice (root_instance doc_twice :: nat JsoncInstance)
     = Inr (Some (JObject [(''a'', JNumber 2)]))"
    by (simp add: value_of_def tree_twice_def tree_defs sl parse_doc_twice)
  from 1 2 3 4 5 6 7 show ?thesis by simp
qed

end
